theory Spec2Isabelle
  imports Complex_Main
begin

section \<open>Package errors: the domain error\<close>

text \<open>
  Go's \<^verbatim>\<open>error\<close> is an interface: a value of it is nil, a pointer to an
  \<^verbatim>\<open>errors.Error\<close> struct, or a value of some other implementing type. The other
  types the repository produces are collected in \<open>leaf\<close>: \<^verbatim>\<open>*errorString\<close>
  (\<^verbatim>\<open>errors.Str\<close>, \<^verbatim>\<open>errors.Errorf\<close>), \<^verbatim>\<open>facebook.Error\<close>
  (message, type, code, subcode, trace id), the two context errors, and any other
  library error, identified by its message.
\<close>

datatype Kind = Other | Invalid | NotLoggedIn | Permission | NotExist | Exist | Internal

datatype leaf =
    ErrorString string
  | FacebookError string string int int string
  | ContextCanceled
  | ContextDeadlineExceeded
  | LibraryError string

subsection \<open>The heap reading: \<^verbatim>\<open>*Error\<close> as an address\<close>

text \<open>
  An error interface value is nil, a leaf, or the address of an \<^verbatim>\<open>Error\<close> struct.
  The heap is the list of allocated structs; an address is an index into it, and
  allocation appends. An address outside the heap stands for a nil or dangling
  \<^verbatim>\<open>*Error\<close>: dereferencing it panics.
\<close>

datatype ref = RNil | RLeaf leaf | RPtr nat

record ErrorCell =
  UserID :: string
  Op :: string
  Kind :: Kind
  Err :: ref

type_synonym heap = "ErrorCell list"

definition zeroCell :: ErrorCell where
  "zeroCell = \<lparr>UserID = [], Op = [], Kind = Other, Err = RNil\<rparr>"

definition deref :: "heap \<Rightarrow> nat \<Rightarrow> ErrorCell option" where
  "deref h a = (if a < length h then Some (h ! a) else None)"

text \<open>
  The arguments of \<^verbatim>\<open>E(args ...interface{})\<close>, by dynamic type; \<open>'e\<close> is the
  type of error values (\<open>ref\<close> here). \<open>ArgError RNil\<close>
  is a nil interface, which matches no case of the type switch; \<open>ArgOther t v\<close> is a
  value of any type the switch does not list, with the texts \<^verbatim>\<open>%T\<close> and
  \<^verbatim>\<open>%v\<close> print for it.
\<close>

datatype 'e arg =
    ArgUserID string
  | ArgOp string
  | ArgString string
  | ArgKind Kind
  | ArgError 'e
  | ArgOther string string

datatype 'a outcome = Panic | Return 'a

text \<open>
  One turn of the loop over \<^verbatim>\<open>args\<close>, on the struct at address \<open>e\<close>. The result
  is \<open>Inr\<close> the heap to go on with, or \<open>Inl\<close> the early exit: a panic (the copy of a
  nil \<^verbatim>\<open>*Error\<close>) or the \<^verbatim>\<open>Errorf\<close> of the default case.
\<close>

fun E_arg :: "heap \<Rightarrow> nat \<Rightarrow> ref arg \<Rightarrow> (ref \<times> heap) outcome + heap" where
  "E_arg h e (ArgUserID u) = Inr (h[e := (h ! e)\<lparr>UserID := u\<rparr>])"
| "E_arg h e (ArgOp p) = Inr (h[e := (h ! e)\<lparr>Op := p\<rparr>])"
| "E_arg h e (ArgString s) = Inr (h[e := (h ! e)\<lparr>Err := RLeaf (ErrorString s)\<rparr>])"
| "E_arg h e (ArgKind k) = Inr (h[e := (h ! e)\<lparr>Kind := k\<rparr>])"
| "E_arg h e (ArgError (RPtr a)) =
     (case deref h a of
        None \<Rightarrow> Inl Panic
      | Some c \<Rightarrow> Inr ((h @ [c])[e := (h ! e)\<lparr>Err := RPtr (length h)\<rparr>]))"
| "E_arg h e (ArgError (RLeaf l)) = Inr (h[e := (h ! e)\<lparr>Err := RLeaf l\<rparr>])"
| "E_arg h e (ArgError RNil) =
     Inl (Return (RLeaf (ErrorString
        (''unknown type <nil>, value <nil> in error call'')), h))"
| "E_arg h e (ArgOther t v) =
     Inl (Return (RLeaf (ErrorString
        (''unknown type '' @ t @ '', value '' @ v @ '' in error call'')), h))"

fun E_args :: "heap \<Rightarrow> nat \<Rightarrow> ref arg list \<Rightarrow> (ref \<times> heap) outcome + heap" where
  "E_args h e [] = Inr h"
| "E_args h e (a # as) =
     (case E_arg h e a of Inl out \<Rightarrow> Inl out | Inr h' \<Rightarrow> E_args h' e as)"

text \<open>
  The suppression of duplicates, lines 86 to 96: \<open>prev\<close> is the address held in the
  new struct's \<^verbatim>\<open>Err\<close>. The three assignments are made in the source's order, each
  reading the heap the one before left.
\<close>

definition suppress :: "heap \<Rightarrow> nat \<Rightarrow> nat \<Rightarrow> heap" where
  "suppress h e prev =
     (let h1 = (if UserID (h ! prev) = UserID (h ! e)
                then h[prev := (h ! prev)\<lparr>UserID := []\<rparr>] else h);
          h2 = (if Kind (h1 ! prev) = Kind (h1 ! e)
                then h1[prev := (h1 ! prev)\<lparr>Kind := Other\<rparr>] else h1)
      in if Kind (h2 ! e) = Other
         then (let h3 = h2[e := (h2 ! e)\<lparr>Kind := Kind (h2 ! prev)\<rparr>]
               in h3[prev := (h3 ! prev)\<lparr>Kind := Other\<rparr>])
         else h2)"

definition E :: "heap \<Rightarrow> ref arg list \<Rightarrow> (ref \<times> heap) outcome" where
  "E h args =
     (if args = [] then Panic
      else let e = length h in
        case E_args (h @ [zeroCell]) e args of
          Inl out \<Rightarrow> out
        | Inr h1 \<Rightarrow>
            (case Err (h1 ! e) of
               RPtr prev \<Rightarrow>
                 (case deref h1 prev of
                    None \<Rightarrow> Panic
                  | Some c \<Rightarrow> Return (RPtr e, suppress h1 e prev))
             | _ \<Rightarrow> Return (RPtr e, h1)))"

subsection \<open>The value reading: an error with its chain of causes\<close>

text \<open>
  \<^verbatim>\<open>E\<close> copies a cause of type \<^verbatim>\<open>*Error\<close> and changes only the copy, so the
  struct a caller holds is never written after \<^verbatim>\<open>E\<close> returned it (proved below on
  the heap reading). The service layer is therefore modelled on values: an
  \<open>Error\<close> carries its fields and its cause.
\<close>

datatype error =
    Nil
  | Leaf leaf
  | Error (Error_UserID: string) (Error_Op: string) (Error_Kind: Kind) (Error_Err: error)

text \<open>
  \<open>E_val\<close> is the body of \<^verbatim>\<open>E\<close> after the check \<^verbatim>\<open>len(args) == 0\<close>; every call
  of the service passes at least one argument. The struct under construction is the
  tuple of its four fields. \<open>Inl\<close> is the early return of the default case.
\<close>

type_synonym fields = "string \<times> string \<times> Kind \<times> error"

fun E_val_arg :: "fields \<Rightarrow> error arg \<Rightarrow> error + fields" where
  "E_val_arg (u, p, k, c) (ArgUserID u') = Inr (u', p, k, c)"
| "E_val_arg (u, p, k, c) (ArgOp p') = Inr (u, p', k, c)"
| "E_val_arg (u, p, k, c) (ArgString s) = Inr (u, p, k, Leaf (ErrorString s))"
| "E_val_arg (u, p, k, c) (ArgKind k') = Inr (u, p, k', c)"
| "E_val_arg (u, p, k, c) (ArgError Nil) =
     Inl (Leaf (ErrorString ''unknown type <nil>, value <nil> in error call''))"
| "E_val_arg (u, p, k, c) (ArgError (Leaf l)) = Inr (u, p, k, Leaf l)"
| "E_val_arg (u, p, k, c) (ArgError (Error u' p' k' c')) = Inr (u, p, k, Error u' p' k' c')"
| "E_val_arg (u, p, k, c) (ArgOther t v) =
     Inl (Leaf (ErrorString
        (''unknown type '' @ t @ '', value '' @ v @ '' in error call'')))"

fun E_val_args :: "fields \<Rightarrow> error arg list \<Rightarrow> error + fields" where
  "E_val_args e [] = Inr e"
| "E_val_args e (a # as) =
     (case E_val_arg e a of Inl r \<Rightarrow> Inl r | Inr e' \<Rightarrow> E_val_args e' as)"

fun suppress_val :: "fields \<Rightarrow> error" where
  "suppress_val (u, p, k, Error pu pp pk pc) =
     (let pu1 = (if pu = u then [] else pu);
          pk1 = (if pk = k then Other else pk)
      in if k = Other then Error u p pk1 (Error pu1 pp Other pc)
         else Error u p k (Error pu1 pp pk1 pc))"
| "suppress_val (u, p, k, c) = Error u p k c"

definition E_val :: "error arg list \<Rightarrow> error" where
  "E_val args =
     (case E_val_args ([], [], Other, Nil) args of
        Inl r \<Rightarrow> r
      | Inr e \<Rightarrow> suppress_val e)"

text \<open>\<^verbatim>\<open>Is(kind, err)\<close>: false on nil and on every error that is not an \<^verbatim>\<open>*Error\<close>.\<close>

fun Is :: "Kind \<Rightarrow> error \<Rightarrow> bool" where
  "Is knd (Error u p k c) =
     (if k \<noteq> Other then k = knd
      else if c \<noteq> Nil then Is knd c
      else False)"
| "Is knd Nil = False"
| "Is knd (Leaf l) = False"

section \<open>Package eventdb: events, destinations, users\<close>

text \<open>
  A \<^verbatim>\<open>time.Time\<close> is read as an instant, in nanoseconds from a fixed epoch, and a
  \<^verbatim>\<open>time.Duration\<close> as a number of nanoseconds; \<^verbatim>\<open>Add\<close> is \<open>+\<close>,
  \<^verbatim>\<open>Sub\<close> is \<open>-\<close> and \<^verbatim>\<open>t.After(u)\<close> is \<open>u < t\<close>. The model has no
  upper bound on either (Go saturates a \<^verbatim>\<open>Sub\<close> beyond 292 years). A Go
  \<^verbatim>\<open>string\<close> that is only stored and compared is a \<open>string\<close>; the two texts the
  classifier reads are lists of Unicode code points, which is what package
  \<^verbatim>\<open>regexp\<close> decodes a string into.
\<close>

type_synonym Time = int
type_synonym Duration = int
type_synonym rune = nat

definition Second :: Duration where "Second = 1000000000"
definition Minute :: Duration where "Minute = 60 * Second"
definition Hour :: Duration where "Hour = 60 * Minute"

record Event =
  Event_ID :: string
  Event_Name :: "rune list"
  Event_Description :: "rune list"
  Event_Latitude :: real
  Event_Longitude :: real
  Event_StartTime :: Time
  Event_EndTime :: Time
  Event_IsCanceled :: bool
  Event_Cover :: string
  Event_Place :: string
  Event_Address :: string
  Event_IsBad :: bool

record EventSearchRequest =
  Bounds :: string
  Start :: Time
  End :: Time
  IncludeBad :: bool

record Dest =
  Dest_ID :: string
  Dest_UserID :: string
  Dest_EventID :: string
  Dest_Event :: "Event option"
  Dest_Status :: string
  Dest_Feedback :: string
  Dest_CreatedAt :: Time

record DestGenerateRequest =
  Req_UserID :: string
  Req_Lat :: real
  Req_Lng :: real

datatype DestGenerateResult = GenerateOK | GenerateWait | GenerateNoResults | GenerateError

record DestGenerateReply =
  Result :: DestGenerateResult
  Dests :: "Dest list"
  Events :: "Event list"

record User =
  User_ID :: string
  User_TimeZone :: string
  User_FacebookID :: string
  User_FacebookToken :: string
  User_Birthday :: Time

record UserUpdate =
  Upd_TimeZone :: string
  Upd_FacebookID :: string
  Upd_FacebookToken :: string
  Upd_Birthday :: Time
  Upd_Mask :: string

record Info =
  Info_ID :: string
  Info_IsAdmin :: bool

section \<open>The bad-event classifier\<close>

subsection \<open>The fragment of package regexp the filters use\<close>

text \<open>
  The seventeen patterns are built from literal runes, literal runes under the flag
  \<^verbatim>\<open>(?i)\<close>, \<^verbatim>\<open>\d\<close>, \<^verbatim>\<open>\b\<close>, concatenation, alternation and the star of one
  literal rune (\<^verbatim>\<open>Rs *\d\<close>). \<open>ends r s i\<close> lists the positions where a match of
  \<open>r\<close> that starts at position \<open>i\<close> of \<open>s\<close> can end; \<^verbatim>\<open>MatchString\<close> asks for a
  match starting anywhere.
\<close>

datatype regexp =
    Lit rune
  | LitFold rune
  | Digit
  | WordBoundary
  | Empty
  | Cat regexp regexp
  | Alt regexp regexp
  | StarLit rune

text \<open>
  Under \<^verbatim>\<open>(?i)\<close> a literal matches every rune of its orbit under
  \<^verbatim>\<open>unicode.SimpleFold\<close>. For an ASCII letter that is the letter in both cases, and
  for \<open>k\<close> and \<open>s\<close> also the Kelvin sign U+212A and the long s U+017F. The function
  is the orbit of an ASCII rune, which is all the patterns contain under the flag.
\<close>

definition foldOrbit :: "rune \<Rightarrow> rune list" where
  "foldOrbit c =
     (let lower = (if 65 \<le> c \<and> c \<le> 90 then c + 32 else c)
      in if 97 \<le> lower \<and> lower \<le> 122
         then [lower, lower - 32] @
              (if lower = 107 then [8490] else if lower = 115 then [383] else [])
         else [c])"

text \<open>\<^verbatim>\<open>\b\<close> and \<^verbatim>\<open>\d\<close> are the ASCII classes of RE2.\<close>

definition isWordRune :: "rune \<Rightarrow> bool" where
  "isWordRune c \<longleftrightarrow> (48 \<le> c \<and> c \<le> 57) \<or> (65 \<le> c \<and> c \<le> 90) \<or> c = 95 \<or> (97 \<le> c \<and> c \<le> 122)"

definition isDigitRune :: "rune \<Rightarrow> bool" where
  "isDigitRune c \<longleftrightarrow> 48 \<le> c \<and> c \<le> 57"

definition wordAt :: "rune list \<Rightarrow> int \<Rightarrow> bool" where
  "wordAt s i \<longleftrightarrow> 0 \<le> i \<and> i < int (length s) \<and> isWordRune (s ! nat i)"

fun ends :: "regexp \<Rightarrow> rune list \<Rightarrow> nat \<Rightarrow> nat list" where
  "ends (Lit c) s i = (if i < length s \<and> s ! i = c then [Suc i] else [])"
| "ends (LitFold c) s i = (if i < length s \<and> s ! i \<in> set (foldOrbit c) then [Suc i] else [])"
| "ends Digit s i = (if i < length s \<and> isDigitRune (s ! i) then [Suc i] else [])"
| "ends WordBoundary s i = (if wordAt s (int i - 1) \<noteq> wordAt s (int i) then [i] else [])"
| "ends Empty s i = [i]"
| "ends (Cat a b) s i = concat (map (ends b s) (ends a s i))"
| "ends (Alt a b) s i = ends a s i @ ends b s i"
| "ends (StarLit c) s i =
     map (\<lambda>n. i + n) [0..<Suc (length (takeWhile (\<lambda>r. r = c) (drop i s)))]"

definition MatchString :: "regexp \<Rightarrow> rune list \<Rightarrow> bool" where
  "MatchString r s \<longleftrightarrow> list_ex (\<lambda>i. ends r s i \<noteq> []) [0..<Suc (length s)]"

text \<open>The patterns, from their source text: a string of ASCII literals, with or without the flag.\<close>

definition runes :: "string \<Rightarrow> rune list" where
  "runes cs = map of_char cs"

definition lits :: "string \<Rightarrow> regexp" where
  "lits cs = foldr (\<lambda>c r. Cat (Lit c) r) (runes cs) Empty"

definition litsFold :: "string \<Rightarrow> regexp" where
  "litsFold cs = foldr (\<lambda>c r. Cat (LitFold c) r) (runes cs) Empty"

definition wordFold :: "string \<Rightarrow> regexp" where
  "wordFold cs = Cat WordBoundary (Cat (litsFold cs) WordBoundary)"

subsection \<open>IsBadEvent\<close>

definition nameFilters :: "regexp list" where
  "nameFilters =
     [wordFold ''Sold Out'',
      wordFold ''Cancel'',
      wordFold ''geschlossene'',
      wordFold ''abgesagte'',
      wordFold ''annulliert'',
      wordFold ''Funeral'',
      wordFold ''bar'',
      wordFold ''pub'']"

text \<open>
  The currency alternation lists, in the source's order, the runes
  U+0024, U+00A5, U+20B9, U+20A1, U+20B1, U+00A3, U+20AC, U+20A9, U+20A8, U+FDFC,
  U+20B1 (a second time) and U+20BD.
\<close>

definition currencyRunes :: "rune list" where
  "currencyRunes = [36, 165, 8377, 8353, 8369, 163, 8364, 8361, 8360, 65020, 8369, 8381]"

definition descFilters :: "regexp list" where
  "descFilters =
     [foldr (\<lambda>c r. Alt (Lit c) r) (butlast currencyRunes) (Lit (last currencyRunes)),
      litsFold ''dollars'',
      Cat (lits ''Rs'') (Cat (StarLit 32) Digit),
      litsFold ''support group'',
      Cat (Alt (litsFold ''men'') (Alt (litsFold ''women'') (litsFold ''children'')))
          (litsFold '' only''),
      litsFold ''regist'',
      litsFold ''RSVP'',
      litsFold ''anmelden'',
      litsFold ''anmeldung'']"

text \<open>The two loops of \<^verbatim>\<open>IsBadEvent\<close>: return true at the first filter that matches.\<close>

fun anyFilter :: "regexp list \<Rightarrow> rune list \<Rightarrow> bool" where
  "anyFilter [] s = False"
| "anyFilter (filt # filts) s = (if MatchString filt s then True else anyFilter filts s)"

definition IsBadEvent :: "Event \<Rightarrow> bool" where
  "IsBadEvent event =
     (if anyFilter nameFilters (Event_Name event) then True
      else if anyFilter descFilters (Event_Description event) then True
      else False)"

section \<open>The collaborators: stores, clock, random source, Facebook client\<close>

text \<open>
  The tables \<^verbatim>\<open>dests\<close> and \<^verbatim>\<open>users\<close> are part of the state, since the service
  writes them; a list holds the rows in the order of their \<^verbatim>\<open>sequence\<close> column.
  Every call that leaves the service is recorded in \<open>calls\<close>, the latest last.
\<close>

datatype call =
    Call_ListForUser string int
  | Call_DestCreate string string
  | Call_GetByID string
  | Call_GetMulti "string list"
  | Call_Search EventSearchRequest
  | Call_Save string
  | Call_SetBad string bool
  | Call_RandomFBToken
  | Call_UserUpdate string UserUpdate
  | Call_GetEventInfo string "string list"
  | Call_Sleep Duration

record World =
  dests :: "Dest list"
  dests_sequence :: nat
  users :: "User list"
  calls :: "call list"

text \<open>
  What the service cannot decide is read from the environment, each answer a function
  of the world in which the question is asked: the identity \<^verbatim>\<open>auth.User(ctx)\<close>, the
  state of the context, the clocks, the random sources, the event store (its geometry
  and its JSON columns are outside the model) and the Graph API. \<open>sql_fails w n\<close> is
  the error with which the \<open>n\<close>-th database statement of a store method fails when the
  method runs in world \<open>w\<close>, and \<open>Nil\<close> when it succeeds; the model hands that error
  to the caller as the method's error.
\<close>

record Env =
  auth_User :: Info
  ctx_Err :: "World \<Rightarrow> error"
  Time_Now :: "World \<Rightarrow> Time"
  CircleGeom :: "real \<Rightarrow> real \<Rightarrow> real \<Rightarrow> string"
  rand_Int :: "World \<Rightarrow> nat"
  rand_Float64 :: "World \<Rightarrow> real"
  sql_fails :: "World \<Rightarrow> nat \<Rightarrow> error"
  sql_now :: "World \<Rightarrow> Time"
  sql_random :: "World \<Rightarrow> real"
  events_GetByID :: "World \<Rightarrow> string \<Rightarrow> Event \<times> error"
  events_GetMulti :: "World \<Rightarrow> string list \<Rightarrow> Event list \<times> error"
  events_Search :: "World \<Rightarrow> EventSearchRequest \<Rightarrow> Event list \<times> error"
  events_Save :: "World \<Rightarrow> string \<Rightarrow> Event \<times> error"
  events_SetBad :: "World \<Rightarrow> string \<Rightarrow> bool \<Rightarrow> error"
  facebook_GetEventInfo :: "World \<Rightarrow> string \<Rightarrow> string list \<Rightarrow> string list \<times> error"

definition called :: "call \<Rightarrow> World \<Rightarrow> World" where
  "called c w = w\<lparr>calls := calls w @ [c]\<rparr>"

definition zeroEvent :: Event where
  "zeroEvent = \<lparr>Event_ID = [], Event_Name = [], Event_Description = [],
     Event_Latitude = 0, Event_Longitude = 0, Event_StartTime = 0, Event_EndTime = 0,
     Event_IsCanceled = False, Event_Cover = [], Event_Place = [], Event_Address = [],
     Event_IsBad = False\<rparr>"

definition zeroDest :: Dest where
  "zeroDest = \<lparr>Dest_ID = [], Dest_UserID = [], Dest_EventID = [], Dest_Event = None,
     Dest_Status = [], Dest_Feedback = [], Dest_CreatedAt = 0\<rparr>"

definition zeroUser :: User where
  "zeroUser = \<lparr>User_ID = [], User_TimeZone = [], User_FacebookID = [],
     User_FacebookToken = [], User_Birthday = 0\<rparr>"

subsection \<open>The event store and the Graph API, as the service calls them\<close>

definition EventStore_GetByID :: "Env \<Rightarrow> World \<Rightarrow> string \<Rightarrow> (Event \<times> error) \<times> World" where
  "EventStore_GetByID env w eventID =
     (let w1 = called (Call_GetByID eventID) w in (events_GetByID env w1 eventID, w1))"

definition EventStore_GetMulti :: "Env \<Rightarrow> World \<Rightarrow> string list \<Rightarrow> (Event list \<times> error) \<times> World" where
  "EventStore_GetMulti env w eventIDs =
     (let w1 = called (Call_GetMulti eventIDs) w in (events_GetMulti env w1 eventIDs, w1))"

definition EventStore_Search :: "Env \<Rightarrow> World \<Rightarrow> EventSearchRequest \<Rightarrow> (Event list \<times> error) \<times> World" where
  "EventStore_Search env w params =
     (let w1 = called (Call_Search params) w in (events_Search env w1 params, w1))"

definition EventStore_Save :: "Env \<Rightarrow> World \<Rightarrow> string \<Rightarrow> (Event \<times> error) \<times> World" where
  "EventStore_Save env w eventJS =
     (let w1 = called (Call_Save eventJS) w in (events_Save env w1 eventJS, w1))"

definition EventStore_SetBad :: "Env \<Rightarrow> World \<Rightarrow> string \<Rightarrow> bool \<Rightarrow> error \<times> World" where
  "EventStore_SetBad env w eventID isBad =
     (let w1 = called (Call_SetBad eventID isBad) w in (events_SetBad env w1 eventID isBad, w1))"

definition GetEventInfo :: "Env \<Rightarrow> World \<Rightarrow> string \<Rightarrow> string list \<Rightarrow> (string list \<times> error) \<times> World" where
  "GetEventInfo env w oauthToken ids =
     (let w1 = called (Call_GetEventInfo oauthToken ids) w
      in (facebook_GetEventInfo env w1 oauthToken ids, w1))"

subsection \<open>DestStore\<close>

text \<open>\<^verbatim>\<open>fmt.Sprint\<close> of a sequence number: its decimal digits.\<close>

fun decimal :: "nat \<Rightarrow> string" where
  "decimal n =
     (if n < 10 then [''0123456789'' ! n]
      else decimal (n div 10) @ [''0123456789'' ! (n mod 10)])"

text \<open>
  \<^verbatim>\<open>ORDER BY created_at DESC\<close>. PostgreSQL leaves the order of rows with equal
  \<^verbatim>\<open>created_at\<close> open; the model lists the row inserted later first.
\<close>

definition newestFirst :: "Dest list \<Rightarrow> Dest list" where
  "newestFirst ds = rev (sort_key Dest_CreatedAt ds)"

text \<open>
  \<^verbatim>\<open>ListForUser\<close>: one page of ten, \<^verbatim>\<open>OFFSET page * 10 LIMIT 10\<close>. PostgreSQL
  rejects a negative offset, and \<^verbatim>\<open>list\<close> wraps what the query returned with
  \<^verbatim>\<open>errors.E(pgErr(err), "dest list")\<close>.
\<close>

definition DestStore_ListForUser :: "Env \<Rightarrow> World \<Rightarrow> string \<Rightarrow> int \<Rightarrow> (Dest list \<times> error) \<times> World" where
  "DestStore_ListForUser env w userID page =
     (let pageSize = 10;
          offset = page * pageSize;
          limit = pageSize;
          w1 = called (Call_ListForUser userID page) w
      in if sql_fails env w1 0 \<noteq> Nil then (([], sql_fails env w1 0), w1)
         else if offset < 0 then
           (([], E_val [ArgError (Leaf (LibraryError ''pq: OFFSET must not be negative'')),
                        ArgString ''dest list'']), w1)
         else
           ((take (nat limit) (drop (nat offset)
               (newestFirst (filter (\<lambda>d. Dest_UserID d = userID) (dests w1)))), Nil), w1))"

text \<open>\<^verbatim>\<open>Get\<close>, after its query succeeded: the first row with the identifier.\<close>

definition DestStore_Get :: "World \<Rightarrow> string \<Rightarrow> Dest \<times> error" where
  "DestStore_Get w destID =
     (case filter (\<lambda>d. Dest_ID d = destID) (dests w) of
        [] \<Rightarrow> (zeroDest, E_val [ArgKind NotExist, ArgString ''dest not found''])
      | dest # _ \<Rightarrow> (dest, Nil))"

text \<open>
  \<^verbatim>\<open>Create\<close>: statements 0 to 4 are \<^verbatim>\<open>BeginTx\<close>, the \<^verbatim>\<open>INSERT\<close>, the
  \<^verbatim>\<open>UPDATE\<close> that sets the identifier, \<^verbatim>\<open>Commit\<close> and the query of the final
  \<^verbatim>\<open>Get\<close>. A failure before the commit rolls the row back (the deferred
  \<^verbatim>\<open>tx.Rollback\<close>); the serial counter keeps the number it handed out.
\<close>

definition DestStore_Create :: "Env \<Rightarrow> World \<Rightarrow> Dest \<Rightarrow> (Dest \<times> error) \<times> World" where
  "DestStore_Create env w dest =
     (let w1 = called (Call_DestCreate (Dest_UserID dest) (Dest_EventID dest)) w
      in if sql_fails env w1 0 \<noteq> Nil then ((dest, sql_fails env w1 0), w1)
         else if sql_fails env w1 1 \<noteq> Nil then ((dest, sql_fails env w1 1), w1)
         else
           let sequence = Suc (dests_sequence w1);
               w2 = w1\<lparr>dests_sequence := sequence\<rparr>;
               destID = decimal sequence
           in if sql_fails env w1 2 \<noteq> Nil then ((dest, sql_fails env w1 2), w2)
              else if sql_fails env w1 3 \<noteq> Nil then ((dest, sql_fails env w1 3), w2)
              else
                let row = \<lparr>Dest_ID = destID, Dest_UserID = Dest_UserID dest,
                           Dest_EventID = Dest_EventID dest, Dest_Event = None,
                           Dest_Status = [], Dest_Feedback = [],
                           Dest_CreatedAt = sql_now env w1\<rparr>;
                    w3 = w2\<lparr>dests := dests w2 @ [row]\<rparr>
                in if sql_fails env w1 4 \<noteq> Nil then ((zeroDest, sql_fails env w1 4), w3)
                   else (DestStore_Get w3 destID, w3))"

subsection \<open>UserStore\<close>

text \<open>
  \<^verbatim>\<open>RandomFBToken\<close>: of the users with a token, in sequence order, the one at
  offset \<^verbatim>\<open>floor(random() * count)\<close>. With no row the scan fails with
  \<^verbatim>\<open>sql.ErrNoRows\<close>, which \<^verbatim>\<open>pgErr\<close> turns into \<^verbatim>\<open>errors.E(errors.NotExist)\<close>.
\<close>

definition UserStore_RandomFBToken :: "Env \<Rightarrow> World \<Rightarrow> (string \<times> string \<times> error) \<times> World" where
  "UserStore_RandomFBToken env w =
     (let w1 = called Call_RandomFBToken w
      in if sql_fails env w1 0 \<noteq> Nil then (([], [], sql_fails env w1 0), w1)
         else
           let holders = filter (\<lambda>u. length (User_FacebookToken u) > 0) (users w1);
               offset = nat \<lfloor>sql_random env w1 * real (length holders)\<rfloor>
           in if offset < length holders
              then ((User_ID (holders ! offset), User_FacebookToken (holders ! offset), Nil), w1)
              else (([], [], E_val [ArgString ''no facebook tokens available'',
                                    ArgError (E_val [ArgKind NotExist])]), w1))"

text \<open>\<^verbatim>\<open>strings.Split(mask, ",")\<close>.\<close>

fun split_comma :: "string \<Rightarrow> string list" where
  "split_comma [] = [[]]"
| "split_comma (c # cs) =
     (if c = CHR '','' then [] # split_comma cs
      else (case split_comma cs of
              [] \<Rightarrow> [[c]]
            | x # xs \<Rightarrow> (c # x) # xs))"

definition applyUpdate :: "UserUpdate \<Rightarrow> User \<Rightarrow> User" where
  "applyUpdate update u =
     (let fields = split_comma (Upd_Mask update)
      in u\<lparr>User_TimeZone :=
             (if ''timeZone'' \<in> set fields then Upd_TimeZone update else User_TimeZone u),
           User_FacebookID :=
             (if ''facebookID'' \<in> set fields then Upd_FacebookID update else User_FacebookID u),
           User_FacebookToken :=
             (if ''facebookToken'' \<in> set fields then Upd_FacebookToken update
              else User_FacebookToken u),
           User_Birthday :=
             (if ''birthday'' \<in> set fields then Upd_Birthday update else User_Birthday u)\<rparr>)"

definition UserStore_GetByID :: "World \<Rightarrow> string \<Rightarrow> User \<times> error" where
  "UserStore_GetByID w userID =
     (case filter (\<lambda>u. User_ID u = userID) (users w) of
        [] \<Rightarrow> (zeroUser, E_val [ArgKind NotExist])
      | user # _ \<Rightarrow> (user, Nil))"

text \<open>
  \<^verbatim>\<open>Update\<close>: \<^verbatim>\<open>INSERT ... ON CONFLICT (user_id) DO UPDATE SET\<close> the fields of
  the mask; statement 0 is that upsert, statement 1 the query of the final
  \<^verbatim>\<open>GetByID\<close>. A mask that names no field leaves a plain \<^verbatim>\<open>INSERT\<close>, which the
  unique index on \<^verbatim>\<open>user_id\<close> rejects for an existing user. (A mask that names a
  field twice is not modelled.)
\<close>

definition UserStore_Update :: "Env \<Rightarrow> World \<Rightarrow> string \<Rightarrow> UserUpdate \<Rightarrow> (User \<times> error) \<times> World" where
  "UserStore_Update env w userID update =
     (let w1 = called (Call_UserUpdate userID update) w;
          fields = filter (\<lambda>f. f \<in> {''timeZone'', ''facebookID'', ''facebookToken'', ''birthday''})
                     (split_comma (Upd_Mask update));
          known = list_ex (\<lambda>u. User_ID u = userID) (users w1)
      in if sql_fails env w1 0 \<noteq> Nil then ((zeroUser, sql_fails env w1 0), w1)
         else if known \<and> fields = [] then
           ((zeroUser, E_val [ArgKind Exist,
               ArgString (''duplicate key value violates unique constraint '' @
                 [CHR 0x22] @ ''user_id_idx'' @ [CHR 0x22])]), w1)
         else
           let w2 = w1\<lparr>users :=
                 (if known
                  then map (\<lambda>u. if User_ID u = userID then applyUpdate update u else u) (users w1)
                  else users w1 @ [applyUpdate update (zeroUser\<lparr>User_ID := userID\<rparr>)])\<rparr>
           in if sql_fails env w1 1 \<noteq> Nil then ((zeroUser, sql_fails env w1 1), w2)
              else (UserStore_GetByID w2 userID, w2))"

section \<open>Package service\<close>

subsection \<open>retry and EventSubmit\<close>

text \<open>
  \<^verbatim>\<open>retry\<close> is a label and a \<^verbatim>\<open>goto\<close>; the model is the recursion on the number
  of retries left. The count is a Go \<^verbatim>\<open>int\<close>, and the one call of the repository
  passes 3: the model takes a natural number. Besides the error and the world the
  model returns what the loop did, in order: a reading of \<^verbatim>\<open>ctx.Err()\<close>, a call of
  \<^verbatim>\<open>f\<close>, a \<^verbatim>\<open>time.Sleep\<close>. The backoff is computed in \<^verbatim>\<open>float64\<close> in the
  source and in the reals here: \<^verbatim>\<open>(2^retries + rand.Float64()) * 1e9\<close>, cut to a
  whole number of nanoseconds.
\<close>

datatype step = ReadCtxErr | Attempt | Sleep Duration

definition backoff :: "nat \<Rightarrow> real \<Rightarrow> Duration" where
  "backoff retries jitter = \<lfloor>(2 ^ retries + jitter) * real_of_int Second\<rfloor>"

fun retry :: "Env \<Rightarrow> nat \<Rightarrow> (World \<Rightarrow> error \<times> World) \<Rightarrow> World \<Rightarrow> (error \<times> step list) \<times> World" where
  "retry env 0 f w =
     (if ctx_Err env w \<noteq> Nil then ((ctx_Err env w, [ReadCtxErr]), w)
      else
        let (err, w1) = f w
        in if err \<noteq> Nil then ((err, [ReadCtxErr, Attempt]), w1)
           else ((Nil, [ReadCtxErr, Attempt]), w1))"
| "retry env (Suc retries) f w =
     (if ctx_Err env w \<noteq> Nil then ((ctx_Err env w, [ReadCtxErr]), w)
      else
        let (err, w1) = f w
        in if err \<noteq> Nil then
             let b = backoff retries (rand_Float64 env w1);
                 w2 = called (Call_Sleep b) w1;
                 ((err', steps), w3) = retry env retries f w2
             in ((err', [ReadCtxErr, Attempt, Sleep b] @ steps), w3)
           else ((Nil, [ReadCtxErr, Attempt]), w1))"

text \<open>\<^verbatim>\<open>facebook.IsTokenExpired\<close>: the fields are message, type, code, subcode, trace id.\<close>

fun IsTokenExpired :: "error \<Rightarrow> bool" where
  "IsTokenExpired (Leaf (FacebookError msg typ code subcode trace)) =
     (typ = ''OAuthException'' \<and> code = 190)"
| "IsTokenExpired _ = False"

text \<open>The loop over the fetched bodies: save, classify, mark.\<close>

fun saveEvents :: "Env \<Rightarrow> string list \<Rightarrow> World \<Rightarrow> error \<times> World" where
  "saveEvents env [] w = (Nil, w)"
| "saveEvents env (e # es) w =
     (let ((event, err), w1) = EventStore_Save env w e
      in if err \<noteq> Nil then
           (E_val [ArgOp ''Service.EventSubmit'', ArgKind Internal,
                   ArgString ''save event'', ArgError err], w1)
         else
           let (err, w2) = EventStore_SetBad env w1 (Event_ID event) (IsBadEvent event)
           in if err \<noteq> Nil then
                (E_val [ArgOp ''Service.EventSubmit'', ArgKind Internal,
                        ArgString ''mark bad'', ArgError err], w2)
              else saveEvents env es w2)"

text \<open>The update that clears a token, and the closure \<^verbatim>\<open>EventSubmit\<close> hands to \<^verbatim>\<open>retry\<close>: one attempt.\<close>

definition expireToken :: UserUpdate where
  "expireToken = \<lparr>Upd_TimeZone = [], Upd_FacebookID = [], Upd_FacebookToken = [],
                   Upd_Birthday = 0, Upd_Mask = ''facebookToken''\<rparr>"

definition submitAttempt :: "Env \<Rightarrow> string \<Rightarrow> string list \<Rightarrow> World \<Rightarrow> error \<times> World" where
  "submitAttempt env userID eventIDs w =
     (let ((fetcherID, oauthToken, err), w1) = UserStore_RandomFBToken env w
      in if err \<noteq> Nil then
           (E_val [ArgOp ''Service.EventSubmit'', ArgKind Internal, ArgUserID userID,
                   ArgError err], w1)
         else
           let eventIDStrs = eventIDs;
               ((events, err), w2) = GetEventInfo env w1 oauthToken eventIDStrs
           in if IsTokenExpired err then
                let ((_, err), w3) = UserStore_Update env w2 fetcherID expireToken
                in if err \<noteq> Nil then
                     (E_val [ArgOp ''Service.EventSubmit'', ArgUserID userID,
                             ArgString ''expire user token'', ArgError err], w3)
                   else
                     (E_val [ArgOp ''Service.EventSubmit'', ArgUserID userID,
                             ArgString ''facebook token expired''], w3)
              else if err \<noteq> Nil then (err, w2)
              else saveEvents env events w2)"

definition EventSubmit :: "Env \<Rightarrow> World \<Rightarrow> string list \<Rightarrow> error \<times> World" where
  "EventSubmit env w eventIDs =
     (let userID = Info_ID (auth_User env)
      in if userID = [] then
           (E_val [ArgOp ''Service.EventSubmit'', ArgKind Permission], w)
         else if length eventIDs > 50 then
           (E_val [ArgOp ''Service.EventSubmit'', ArgKind Invalid, ArgUserID userID,
                   ArgError (Leaf (LibraryError
                     (''event list length ('' @ decimal (length eventIDs) @ '') > max (50)'')))],
            w)
         else
           let ((err, steps), w1) = retry env 3 (submitAttempt env userID eventIDs) w
           in if err \<noteq> Nil then (E_val [ArgOp ''Service.EventSubmit'', ArgError err], w1)
              else (Nil, w1))"

subsection \<open>nextEvent\<close>

text \<open>The inner loops of \<^verbatim>\<open>nextEvent\<close>: is the event one to leave out?\<close>

definition badEvent :: "Time \<Rightarrow> Dest list \<Rightarrow> Event \<Rightarrow> bool" where
  "badEvent now alreadyChosen event =
     (let badEvent0 = list_ex (\<lambda>chosen. Dest_EventID chosen = Event_ID event) alreadyChosen;
          arriveTime = now + 30 * Minute
      in if Event_EndTime event < arriveTime then True else badEvent0)"

definition timeWindow :: Duration where
  "timeWindow = 90 * Minute"

text \<open>
  The \<^verbatim>\<open>for\<close> loop, from a given \<^verbatim>\<open>searchTime\<close>. \<^verbatim>\<open>rand.Intn(n)\<close> is the
  random number of the environment modulo \<open>n\<close>, so that every index below \<open>n\<close> can
  come out and no other.
\<close>

function searchLoop ::
  "Env \<Rightarrow> string \<Rightarrow> Time \<Rightarrow> string \<Rightarrow> Dest list \<Rightarrow> Time \<Rightarrow> World
     \<Rightarrow> (string \<times> DestGenerateResult \<times> error) \<times> World" where
  "searchLoop env userID now bounds alreadyChosen searchTime w =
     (if searchTime - now > 48 * Hour then (([], GenerateNoResults, Nil), w)
      else
        let ((events, err), w1) = EventStore_Search env w
              \<lparr>Bounds = bounds, Start = searchTime, End = searchTime + timeWindow,
               IncludeBad = False\<rparr>
        in if Is NotExist err then (([], GenerateNoResults, Nil), w1)
           else if err \<noteq> Nil then
             (([], GenerateError,
               E_val [ArgOp ''Service.nextEvent'', ArgUserID userID,
                      ArgString ''search failed'', ArgError err]), w1)
           else
             let goodEvents = filter (\<lambda>event. \<not> badEvent now alreadyChosen event) events
             in if length goodEvents = 0
                then searchLoop env userID now bounds alreadyChosen (searchTime + timeWindow) w1
                else
                  let n = rand_Int env w1 mod length goodEvents
                  in ((Event_ID (goodEvents ! n), GenerateOK, Nil), w1))"
  by pat_completeness auto
termination
  by (relation "measure (\<lambda>(env, userID, now, bounds, alreadyChosen, searchTime, w).
          nat (now + 48 * Hour + 1 - searchTime))")
     (auto simp: timeWindow_def Minute_def Second_def Hour_def)

declare searchLoop.simps [simp del]

definition nextEvent ::
  "Env \<Rightarrow> World \<Rightarrow> string \<Rightarrow> DestGenerateRequest
     \<Rightarrow> (string \<times> DestGenerateResult \<times> error) \<times> World" where
  "nextEvent env w userID opts =
     (let now = Time_Now env w;
          bounds = CircleGeom env (Req_Lat opts) (Req_Lng opts) 8000;
          ((alreadyChosen, err), w1) = DestStore_ListForUser env w userID 0
      in if err \<noteq> Nil then
           (([], GenerateError,
             E_val [ArgOp ''Service.nextEvent'', ArgUserID userID, ArgError err,
                    ArgString ''list dests'']), w1)
         else
           (case alreadyChosen of
              [] \<Rightarrow> searchLoop env userID now bounds alreadyChosen (now + 10 * Minute) w1
            | lastDest # _ \<Rightarrow>
                let ((lastEvent, err), w2) = EventStore_GetByID env w1 (Dest_EventID lastDest)
                in if err \<noteq> Nil then
                     (([], GenerateError,
                       E_val [ArgOp ''Service.nextEvent'', ArgUserID userID, ArgError err,
                              ArgString ''get last event'']), w2)
                   else if now < Event_StartTime lastEvent then (([], GenerateWait, Nil), w2)
                   else searchLoop env userID now bounds alreadyChosen (now + 10 * Minute) w2))"

subsection \<open>DestList and DestGenerate\<close>

text \<open>
  In \<^verbatim>\<open>DestList\<close> the identifier handed to \<^verbatim>\<open>errors.E\<close> is a plain
  \<^verbatim>\<open>string\<close>, which \<^verbatim>\<open>E\<close> reads as an error text.
\<close>

definition DestList :: "Env \<Rightarrow> World \<Rightarrow> int \<Rightarrow> (Dest list \<times> error) \<times> World" where
  "DestList env w page =
     (let userID = Info_ID (auth_User env)
      in if userID = [] then
           (([], E_val [ArgOp ''Service.DestList'', ArgKind NotLoggedIn]), w)
         else
           let ((dests0, err), w1) = DestStore_ListForUser env w userID page
           in if err \<noteq> Nil then
                (([], E_val [ArgOp ''Service.DestList'', ArgString userID, ArgError err]), w1)
              else
                let eventIDs = map Dest_EventID dests0;
                    ((events, err), w2) = EventStore_GetMulti env w1 eventIDs
                in if err \<noteq> Nil then
                     (([], E_val [ArgOp ''Service.DestList'', ArgString userID, ArgError err]), w2)
                   else
                     ((map (\<lambda>dest.
                         case find (\<lambda>event. Dest_EventID dest = Event_ID event) events of
                           None \<Rightarrow> dest
                         | Some event \<Rightarrow> dest\<lparr>Dest_Event := Some event\<rparr>) dests0, Nil), w2))"

text \<open>
  The last loop of \<^verbatim>\<open>DestGenerate\<close> dereferences \<^verbatim>\<open>dest.Event\<close>: a destination
  whose event \<^verbatim>\<open>DestList\<close> did not find makes it panic. \<open>None\<close> is that panic.
\<close>

fun sideloaded :: "Dest list \<Rightarrow> Event list option" where
  "sideloaded [] = Some []"
| "sideloaded (dest # rest) =
     (case Dest_Event dest of
        None \<Rightarrow> None
      | Some event \<Rightarrow> (case sideloaded rest of None \<Rightarrow> None | Some es \<Rightarrow> Some (event # es)))"

text \<open>
  Lines 250 to 265 of \<^verbatim>\<open>DestGenerate\<close>, with the reply built so far: list the
  caller's destinations and move their events into the reply.
\<close>

definition listReply ::
  "Env \<Rightarrow> World \<Rightarrow> DestGenerateReply \<Rightarrow> string \<Rightarrow> (DestGenerateReply \<times> error) outcome \<times> World" where
  "listReply env w reply userID =
     (let ((dests, err), w3) = DestList env w 0
      in if err \<noteq> Nil then
           (Return (reply, E_val [ArgOp ''Service.DestGenerate'', ArgUserID userID,
                      ArgKind Internal, ArgString ''list dests'', ArgError err]), w3)
         else
           (case sideloaded dests of
              None \<Rightarrow> (Panic, w3)
            | Some destEvents \<Rightarrow>
                (Return (reply\<lparr>Dests := map (\<lambda>dest. dest\<lparr>Dest_Event := None\<rparr>) dests,
                               Events := destEvents\<rparr>, Nil), w3)))"

definition DestGenerate ::
  "Env \<Rightarrow> World \<Rightarrow> DestGenerateRequest \<Rightarrow> (DestGenerateReply \<times> error) outcome \<times> World" where
  "DestGenerate env w opts =
     (let reply = \<lparr>Result = GenerateOK, Dests = [], Events = []\<rparr>;
          currentUser = auth_User env
      in if Info_ID currentUser = [] then
           (Return (reply, E_val [ArgOp ''Service.DestGenerate'', ArgKind Permission]), w)
         else
           let userID = (if Req_UserID opts = ''me'' \<or> Req_UserID opts = []
                         then Info_ID currentUser else Req_UserID opts)
           in if userID \<noteq> Info_ID currentUser \<and> \<not> Info_IsAdmin currentUser then
                (Return (reply, E_val [ArgOp ''Service.DestGenerate'', ArgKind Permission]), w)
              else
                let ((chosenID, result, err), w1) = nextEvent env w userID opts
                in if err \<noteq> Nil then
                     (Return (reply, E_val [ArgOp ''Service.DestGenerate'', ArgKind Internal,
                                ArgString ''nextEvent failed'', ArgError err]), w1)
                   else
                     let reply = reply\<lparr>Result := result\<rparr>
                     in if result = GenerateOK then
                          let ((_, err), w2) = DestStore_Create env w1
                                (zeroDest\<lparr>Dest_UserID := userID, Dest_EventID := chosenID\<rparr>)
                          in if err \<noteq> Nil then
                               (Return (reply, E_val [ArgOp ''Service.DestGenerate'',
                                          ArgUserID userID, ArgKind Internal,
                                          ArgString ''create dest'', ArgError err]), w2)
                             else listReply env w2 reply userID
                        else listReply env w1 reply userID)"

section \<open>Notions the properties are stated with\<close>

text \<open>
  The caller may generate for \<open>userID\<close>: there is an identity, \<open>userID\<close> is the
  requested user with \<^verbatim>\<open>me\<close> and the empty identifier resolved to the caller, and it
  is the caller unless the caller is an administrator.
\<close>

definition authorised :: "Env \<Rightarrow> DestGenerateRequest \<Rightarrow> string \<Rightarrow> bool" where
  "authorised env opts userID \<longleftrightarrow>
     Info_ID (auth_User env) \<noteq> []
     \<and> userID = (if Req_UserID opts = ''me'' \<or> Req_UserID opts = []
                 then Info_ID (auth_User env) else Req_UserID opts)
     \<and> (userID = Info_ID (auth_User env) \<or> Info_IsAdmin (auth_User env))"

text \<open>
  Between two worlds nothing was written: the tables and the serial counter are the
  same, and the calls made in between are queries of the two stores.
\<close>

definition reads_only :: "World \<Rightarrow> World \<Rightarrow> bool" where
  "reads_only w w' \<longleftrightarrow>
     dests w' = dests w \<and> dests_sequence w' = dests_sequence w \<and> users w' = users w
     \<and> (\<exists>cs. calls w' = calls w @ cs
          \<and> (\<forall>c \<in> set cs. (\<exists>u p. c = Call_ListForUser u p) \<or> (\<exists>i. c = Call_GetByID i)
                \<or> (\<exists>ids. c = Call_GetMulti ids) \<or> (\<exists>r. c = Call_Search r)))"

section \<open>Worlds and environments to run the service in\<close>

text \<open>
  The world with empty tables, and the environment in which nothing is cancelled,
  no statement fails, the clocks stand at 0, the random sources give 0 and the event
  store and the Graph API are empty. The examples below change the fields they need.
\<close>

definition emptyWorld :: World where
  "emptyWorld = \<lparr>dests = [], dests_sequence = 0, users = [], calls = []\<rparr>"

definition quietEnv :: "Info \<Rightarrow> Env" where
  "quietEnv who =
     \<lparr>auth_User = who, ctx_Err = (\<lambda>w. Nil), Time_Now = (\<lambda>w. 0),
      CircleGeom = (\<lambda>lat lng r. []), rand_Int = (\<lambda>w. 0), rand_Float64 = (\<lambda>w. 0),
      sql_fails = (\<lambda>w n. Nil), sql_now = (\<lambda>w. 0), sql_random = (\<lambda>w. 0),
      events_GetByID = (\<lambda>w i. (zeroEvent, E_val [ArgKind NotExist])),
      events_GetMulti = (\<lambda>w ids. ([], Nil)),
      events_Search = (\<lambda>w r. ([], Nil)),
      events_Save = (\<lambda>w js. (zeroEvent, Nil)),
      events_SetBad = (\<lambda>w i b. Nil),
      facebook_GetEventInfo = (\<lambda>w t ids. ([], Nil))\<rparr>"

text \<open>
  For the retry loop: an attempt that always fails, and a context that is cancelled
  as soon as anything has been called, that is, during the first attempt.
\<close>

definition failingAttempt :: "World \<Rightarrow> error \<times> World" where
  "failingAttempt w = (Leaf (LibraryError ''fetch failed''), called Call_RandomFBToken w)"

definition cancelledLaterEnv :: Env where
  "cancelledLaterEnv =
     (quietEnv \<lparr>Info_ID = ''bob'', Info_IsAdmin = False\<rparr>)
       \<lparr>ctx_Err := (\<lambda>w. if calls w = [] then Nil else Leaf ContextCanceled)\<rparr>"

text \<open>
  For the expired credential: one user holds a token, and the Graph API answers every
  request with the error of an expired token (type \<^verbatim>\<open>OAuthException\<close>, code 190).
\<close>

definition oneTokenWorld :: World where
  "oneTokenWorld =
     emptyWorld\<lparr>users := [zeroUser\<lparr>User_ID := ''alice'', User_FacebookToken := ''t1''\<rparr>]\<rparr>"

definition expiredTokenEnv :: Env where
  "expiredTokenEnv =
     (quietEnv \<lparr>Info_ID = ''bob'', Info_IsAdmin = False\<rparr>)
       \<lparr>facebook_GetEventInfo := (\<lambda>w t ids.
          ([], Leaf (FacebookError ''Error validating access token''
                       ''OAuthException'' 190 463 ''AbC'')))\<rparr>"

text \<open>
  For the selection engine: the user \<open>u\<close> and a request at the origin; an event
  store whose search fails with a \<open>NotExist\<close> error, and one whose every statement
  and search fails with a connection error.
\<close>

definition userU :: Info where
  "userU = \<lparr>Info_ID = ''u'', Info_IsAdmin = False\<rparr>"

definition noRequest :: DestGenerateRequest where
  "noRequest = \<lparr>Req_UserID = [], Req_Lat = 0, Req_Lng = 0\<rparr>"

definition notExistSearchEnv :: Env where
  "notExistSearchEnv =
     (quietEnv userU)\<lparr>events_Search := (\<lambda>w r. ([], E_val [ArgKind NotExist]))\<rparr>"

definition brokenStoreEnv :: Env where
  "brokenStoreEnv =
     (quietEnv userU)
       \<lparr>sql_fails := (\<lambda>w n. Leaf (LibraryError ''connection refused'')),
        events_Search := (\<lambda>w r. ([], Leaf (LibraryError ''connection refused'')))\<rparr>"

text \<open>
  A user with one destination whose event starts in an hour, and an event store that
  knows the event.
\<close>

definition upcomingEvent :: Event where
  "upcomingEvent =
     zeroEvent\<lparr>Event_ID := ''e1'', Event_StartTime := Hour, Event_EndTime := 2 * Hour\<rparr>"

definition oneDestWorld :: World where
  "oneDestWorld =
     emptyWorld\<lparr>dests := [zeroDest\<lparr>Dest_ID := ''1'', Dest_UserID := ''u'', Dest_EventID := ''e1''\<rparr>],
                dests_sequence := 1\<rparr>"

definition waitingEnv :: Env where
  "waitingEnv =
     (quietEnv userU)\<lparr>events_GetByID := (\<lambda>w i. (upcomingEvent, Nil)),
                      events_GetMulti := (\<lambda>w ids. ([upcomingEvent], Nil))\<rparr>"

text \<open>
  A user with eleven destinations, for the events \<open>e1\<close> to \<open>e11\<close> in the order of
  their creation, and an event store in which every event began an hour ago and ends
  in five hours and the search finds \<open>e1\<close>. And an event store whose search finds one
  event, which ends thirty minutes from now.
\<close>

definition elevenDestsWorld :: World where
  "elevenDestsWorld =
     emptyWorld\<lparr>dests := map (\<lambda>i. zeroDest\<lparr>Dest_ID := decimal i, Dest_UserID := ''u'',
                                   Dest_EventID := ''e'' @ decimal i, Dest_CreatedAt := int i\<rparr>)
                           [1, 2, 3, 4, 5, 6, 7, 8, 9, 10, 11],
                dests_sequence := 11\<rparr>"

definition longEvent :: Event where
  "longEvent =
     zeroEvent\<lparr>Event_ID := ''e1'', Event_StartTime := - Hour, Event_EndTime := 5 * Hour\<rparr>"

definition longEventEnv :: Env where
  "longEventEnv =
     (quietEnv userU)\<lparr>events_GetByID := (\<lambda>w i. (longEvent\<lparr>Event_ID := i\<rparr>, Nil)),
                      events_Search := (\<lambda>w r. ([longEvent], Nil))\<rparr>"

definition endingEvent :: Event where
  "endingEvent =
     zeroEvent\<lparr>Event_ID := ''e9'', Event_StartTime := - Hour, Event_EndTime := 30 * Minute\<rparr>"

definition endingEventEnv :: Env where
  "endingEventEnv = (quietEnv userU)\<lparr>events_Search := (\<lambda>w r. ([endingEvent], Nil))\<rparr>"

text \<open>
  For the classifier: a description with a dollar sign, and one with the Turkish lira
  sign U+20BA, a currency symbol the filter does not list.
\<close>

definition dollarEvent :: Event where
  "dollarEvent =
     zeroEvent\<lparr>Event_Name := runes ''Concert'', Event_Description := runes ''Entry: $5''\<rparr>"

definition liraEvent :: Event where
  "liraEvent = zeroEvent\<lparr>Event_Name := runes ''Jam'', Event_Description := [8378, 53]\<rparr>"

section \<open>Properties of the domain error\<close>

subsection \<open>What the loop over the arguments leaves in the heap\<close>

text \<open>
  The invariant of the loop, for a heap that had \<open>n\<close> cells when \<^verbatim>\<open>E\<close> was called:
  the first \<open>n\<close> cells are as they were, and an address in the new struct's
  \<^verbatim>\<open>Err\<close> is the address of a copy made since, never below \<open>n\<close> and never the new
  struct's own.
\<close>

lemma E_arg_frame:
  assumes "E_arg h e a = Inr h'" and "e < length h" and "n \<le> e"
    and "\<forall>p. Err (h ! e) = RPtr p \<longrightarrow> n \<le> p \<and> p \<noteq> e \<and> p < length h"
  shows "take n h' = take n h \<and> length h \<le> length h'
    \<and> (\<forall>p. Err (h' ! e) = RPtr p \<longrightarrow> n \<le> p \<and> p \<noteq> e \<and> p < length h')"
  using assms
  by (cases "(h, e, a)" rule: E_arg.cases)
     (auto simp: deref_def nth_append split: if_splits option.splits)

lemma E_arg_exit:
  assumes "E_arg h e a = Inl (Return (r, h'))"
  shows "h' = h \<and> (\<exists>l. r = RLeaf l)"
  using assms
  by (cases "(h, e, a)" rule: E_arg.cases)
     (auto simp: deref_def split: if_splits option.splits)

lemma E_args_frame:
  assumes "E_args h e as = Inr h'" and "e < length h" and "n \<le> e"
    and "\<forall>p. Err (h ! e) = RPtr p \<longrightarrow> n \<le> p \<and> p \<noteq> e \<and> p < length h"
  shows "take n h' = take n h \<and> length h \<le> length h'
    \<and> (\<forall>p. Err (h' ! e) = RPtr p \<longrightarrow> n \<le> p \<and> p \<noteq> e \<and> p < length h')"
  using assms
proof (induction as arbitrary: h)
  case Nil
  then show ?case by simp
next
  case (Cons a as)
  from Cons.prems(1) obtain h1 where 1: "E_arg h e a = Inr h1" and 2: "E_args h1 e as = Inr h'"
    by (auto split: sum.splits)
  from E_arg_frame[OF 1 Cons.prems(2,3,4)]
  have f: "take n h1 = take n h" "length h \<le> length h1"
    "\<forall>p. Err (h1 ! e) = RPtr p \<longrightarrow> n \<le> p \<and> p \<noteq> e \<and> p < length h1"
    by auto
  from Cons.IH[OF 2 _ Cons.prems(3) f(3)] f Cons.prems(2)
  show ?case by auto
qed

lemma E_args_exit:
  assumes "E_args h e as = Inl (Return (r, h'))" and "e < length h" and "n \<le> e"
    and "\<forall>p. Err (h ! e) = RPtr p \<longrightarrow> n \<le> p \<and> p \<noteq> e \<and> p < length h"
  shows "take n h' = take n h \<and> (\<exists>l. r = RLeaf l)"
  using assms
proof (induction as arbitrary: h)
  case Nil
  then show ?case by simp
next
  case (Cons a as)
  show ?case
  proof (cases "E_arg h e a")
    case (Inl out)
    with Cons.prems(1) have "out = Return (r, h')" by simp
    with Inl E_arg_exit[of h e a r h'] show ?thesis by simp
  next
    case (Inr h1)
    with Cons.prems(1) have 2: "E_args h1 e as = Inl (Return (r, h'))" by simp
    from E_arg_frame[OF Inr Cons.prems(2,3,4)]
    have f: "take n h1 = take n h" "length h \<le> length h1"
      "\<forall>p. Err (h1 ! e) = RPtr p \<longrightarrow> n \<le> p \<and> p \<noteq> e \<and> p < length h1"
      by auto
    from Cons.IH[OF 2 _ Cons.prems(3) f(3)] f Cons.prems(2)
    show ?thesis by auto
  qed
qed

lemma suppress_frame:
  "n \<le> e \<Longrightarrow> n \<le> p \<Longrightarrow> take n (suppress h e p) = take n h"
  by (simp add: suppress_def Let_def)

lemma suppress_once:
  assumes "p \<noteq> e" and "p < length h" and "e < length h"
  shows "(Kind (suppress h e p ! p) = Other \<or> Kind (suppress h e p ! p) \<noteq> Kind (suppress h e p ! e))
       \<and> (UserID (suppress h e p ! p) = [] \<or> UserID (suppress h e p ! p) \<noteq> UserID (suppress h e p ! e))
       \<and> (Kind (suppress h e p ! e) = Other \<longrightarrow> Kind (suppress h e p ! p) = Other)
       \<and> Err (suppress h e p ! e) = Err (h ! e)"
  using assms by (auto simp: suppress_def Let_def)

lemma zeroCell_inv:
  "\<forall>p. Err ((h @ [zeroCell]) ! length h) = RPtr p
      \<longrightarrow> length h \<le> p \<and> p \<noteq> length h \<and> p < length (h @ [zeroCell])"
  by (simp add: zeroCell_def)

text \<open>A returned error with a domain error as its cause went through the suppression.\<close>

lemma E_result_shape:
  assumes "E h args = Return (RPtr e, h')" and "Err (h' ! e) = RPtr p"
  shows "\<exists>h1. h' = suppress h1 e p \<and> p \<noteq> e \<and> p < length h1 \<and> e < length h1"
proof -
  let ?e = "length h"
  let ?h0 = "h @ [zeroCell]"
  from assms have ne: "args \<noteq> []" by (auto simp: E_def split: if_splits)
  show ?thesis
  proof (cases "E_args ?h0 ?e args")
    case (Inl out)
    with assms(1) ne have "out = Return (RPtr e, h')" by (simp add: E_def Let_def)
    with Inl E_args_exit[of ?h0 ?e args "RPtr e" h' ?e] zeroCell_inv[of h]
    show ?thesis by simp
  next
    case (Inr h1)
    from E_args_frame[OF Inr _ _ zeroCell_inv]
    have f: "length ?h0 \<le> length h1"
      "\<forall>p. Err (h1 ! ?e) = RPtr p \<longrightarrow> ?e \<le> p \<and> p \<noteq> ?e \<and> p < length h1"
      by auto
    show ?thesis
    proof (cases "Err (h1 ! ?e)")
      case (RPtr q)
      with assms(1) ne Inr f(2) have 1: "h' = suppress h1 ?e q" "e = ?e"
        by (auto simp: E_def deref_def Let_def split: if_splits)
      from f RPtr have 2: "q \<noteq> ?e" "q < length h1" "?e < length h1" by auto
      from suppress_once[OF 2] RPtr 1 assms(2) have "q = p" by simp
      with 1 2 show ?thesis by auto
    next
      case RNil
      with assms(1) ne Inr have "h' = h1" "e = ?e" by (simp_all add: E_def Let_def)
      with RNil assms(2) show ?thesis by simp
    next
      case (RLeaf l)
      with assms(1) ne Inr have "h' = h1" "e = ?e" by (simp_all add: E_def Let_def)
      with RLeaf assms(2) show ?thesis by simp
    qed
  qed
qed

subsection \<open>The construction rule\<close>

text \<open>
  Claim C8. Building an error with user \<open>u\<close>, operation \<open>p\<close> and kind \<open>k\<close> on a
  cause that is the domain error \<open>inner\<close> at address \<open>a\<close> allocates two structs: the
  new error, and the copy of \<open>inner\<close> it points to. The copy's user is cleared when it
  equals \<open>u\<close>; the copy's kind is \<open>Other\<close> when it equals \<open>k\<close>; and when \<open>k\<close> is
  \<open>Other\<close> the new error takes the kind of \<open>inner\<close> and the copy's kind is
  \<open>Other\<close>. So the same kind at both levels is stated once, by the new error. For
  every argument list, in the error \<^verbatim>\<open>E\<close> returns the cause never repeats the kind
  or the user of the error above it, and an error of kind \<open>Other\<close> has a cause of
  kind \<open>Other\<close>.
\<close>

theorem E_construction_rule:
  "(deref h a = Some inner \<longrightarrow>
      E h [ArgUserID u, ArgOp p, ArgKind k, ArgError (RPtr a)] =
        Return (RPtr (length h),
          h @ [\<lparr>UserID = u, Op = p,
                 Kind = (if k = Other then Kind inner else k),
                 Err = RPtr (Suc (length h))\<rparr>,
               inner\<lparr>UserID := (if UserID inner = u then [] else UserID inner),
                     Kind := (if k = Other \<or> Kind inner = k then Other else Kind inner)\<rparr>]))
   \<and> (E h args = Return (RPtr e, h') \<and> Err (h' ! e) = RPtr prev \<longrightarrow>
        (Kind (h' ! prev) = Other \<or> Kind (h' ! prev) \<noteq> Kind (h' ! e))
      \<and> (UserID (h' ! prev) = [] \<or> UserID (h' ! prev) \<noteq> UserID (h' ! e))
      \<and> (Kind (h' ! e) = Other \<longrightarrow> Kind (h' ! prev) = Other))"
proof (rule conjI; rule impI)
  assume d: "deref h a = Some inner"
  then have a: "a < length h" "h ! a = inner"
    by (auto simp: deref_def split: if_splits)
  then show "E h [ArgUserID u, ArgOp p, ArgKind k, ArgError (RPtr a)] =
        Return (RPtr (length h),
          h @ [\<lparr>UserID = u, Op = p,
                 Kind = (if k = Other then Kind inner else k),
                 Err = RPtr (Suc (length h))\<rparr>,
               inner\<lparr>UserID := (if UserID inner = u then [] else UserID inner),
                     Kind := (if k = Other \<or> Kind inner = k then Other else Kind inner)\<rparr>])"
    by (simp add: E_def deref_def zeroCell_def suppress_def Let_def nth_append list_update_append)
next
  assume "E h args = Return (RPtr e, h') \<and> Err (h' ! e) = RPtr prev"
  then obtain h1 where "h' = suppress h1 e prev" "prev \<noteq> e" "prev < length h1" "e < length h1"
    using E_result_shape by blast
  then show "(Kind (h' ! prev) = Other \<or> Kind (h' ! prev) \<noteq> Kind (h' ! e))
      \<and> (UserID (h' ! prev) = [] \<or> UserID (h' ! prev) \<noteq> UserID (h' ! e))
      \<and> (Kind (h' ! e) = Other \<longrightarrow> Kind (h' ! prev) = Other)"
    using suppress_once[of prev e h1] by simp
qed

text \<open>
  The rule at work: an \<open>Internal\<close> error of user \<open>u\<close> built on an \<open>Internal\<close> error of
  the same user. The copy at address 2 has lost both, the original at address 0 has not.
\<close>

theorem E_construction_rule_witness:
  "deref [\<lparr>UserID = ''u'', Op = ''inner'', Kind = Internal, Err = RNil\<rparr>] 0
     = Some \<lparr>UserID = ''u'', Op = ''inner'', Kind = Internal, Err = RNil\<rparr>
   \<and> E [\<lparr>UserID = ''u'', Op = ''inner'', Kind = Internal, Err = RNil\<rparr>]
        [ArgUserID ''u'', ArgOp ''outer'', ArgKind Internal, ArgError (RPtr 0)]
     = Return (RPtr 1,
        [\<lparr>UserID = ''u'', Op = ''inner'', Kind = Internal, Err = RNil\<rparr>,
         \<lparr>UserID = ''u'', Op = ''outer'', Kind = Internal, Err = RPtr 2\<rparr>,
         \<lparr>UserID = [], Op = ''inner'', Kind = Other, Err = RNil\<rparr>])
   \<and> Err ([\<lparr>UserID = ''u'', Op = ''inner'', Kind = Internal, Err = RNil\<rparr>,
         \<lparr>UserID = ''u'', Op = ''outer'', Kind = Internal, Err = RPtr 2\<rparr>,
         \<lparr>UserID = [], Op = ''inner'', Kind = Other, Err = RNil\<rparr>] ! 1) = RPtr 2
   \<and> Kind ([\<lparr>UserID = ''u'', Op = ''inner'', Kind = Internal, Err = RNil\<rparr>,
         \<lparr>UserID = ''u'', Op = ''outer'', Kind = Internal, Err = RPtr 2\<rparr>,
         \<lparr>UserID = [], Op = ''inner'', Kind = Other, Err = RNil\<rparr>] ! 2) = Other"
  using E_construction_rule [of "[\<lparr>UserID = ''u'', Op = ''inner'', Kind = Internal, Err = RNil\<rparr>]" 0
      "\<lparr>UserID = ''u'', Op = ''inner'', Kind = Internal, Err = RNil\<rparr>" "''u''" "''outer''" Internal]
  by (simp add: deref_def)

subsection \<open>The cause is copied\<close>

text \<open>
  Claim C10. Whatever the arguments, when \<^verbatim>\<open>E\<close> returns, every struct that was in
  the heap before the call is in it unchanged: the suppression writes to the new
  struct and to the copy of the cause, both allocated by the call.
\<close>

theorem E_never_mutates_cause:
  "E h args = Return (r, h') \<Longrightarrow> take (length h) h' = h"
proof -
  assume a: "E h args = Return (r, h')"
  let ?e = "length h"
  let ?h0 = "h @ [zeroCell]"
  from a have ne: "args \<noteq> []" by (auto simp: E_def split: if_splits)
  show ?thesis
  proof (cases "E_args ?h0 ?e args")
    case (Inl out)
    with a ne have "out = Return (r, h')" by (simp add: E_def Let_def)
    with Inl E_args_exit[of ?h0 ?e args r h' ?e] zeroCell_inv[of h]
    show ?thesis by simp
  next
    case (Inr h1)
    from E_args_frame[OF Inr _ _ zeroCell_inv]
    have f: "take ?e h1 = take ?e ?h0"
      "\<forall>p. Err (h1 ! ?e) = RPtr p \<longrightarrow> ?e \<le> p \<and> p \<noteq> ?e \<and> p < length h1"
      by auto
    show ?thesis
    proof (cases "Err (h1 ! ?e)")
      case (RPtr p)
      with a ne Inr f(2) have "h' = suppress h1 ?e p"
        by (auto simp: E_def deref_def Let_def split: if_splits)
      with f RPtr suppress_frame[of ?e ?e p h1] show ?thesis by simp
    next
      case RNil
      with a ne Inr have "h' = h1" by (simp add: E_def Let_def)
      with f show ?thesis by simp
    next
      case (RLeaf l)
      with a ne Inr have "h' = h1" by (simp add: E_def Let_def)
      with f show ?thesis by simp
    qed
  qed
qed

theorem E_never_mutates_cause_witness:
  "E [\<lparr>UserID = ''u'', Op = ''inner'', Kind = NotExist, Err = RNil\<rparr>]
      [ArgOp ''outer'', ArgUserID ''u'', ArgError (RPtr 0)]
     = Return (RPtr 1,
        [\<lparr>UserID = ''u'', Op = ''inner'', Kind = NotExist, Err = RNil\<rparr>,
         \<lparr>UserID = ''u'', Op = ''outer'', Kind = NotExist, Err = RPtr 2\<rparr>,
         \<lparr>UserID = [], Op = ''inner'', Kind = Other, Err = RNil\<rparr>])
   \<and> take (length [\<lparr>UserID = ''u'', Op = ''inner'', Kind = NotExist, Err = RNil\<rparr>])
        [\<lparr>UserID = ''u'', Op = ''inner'', Kind = NotExist, Err = RNil\<rparr>,
         \<lparr>UserID = ''u'', Op = ''outer'', Kind = NotExist, Err = RPtr 2\<rparr>,
         \<lparr>UserID = [], Op = ''inner'', Kind = Other, Err = RNil\<rparr>]
     = [\<lparr>UserID = ''u'', Op = ''inner'', Kind = NotExist, Err = RNil\<rparr>]"
proof -
  have run: "E [\<lparr>UserID = ''u'', Op = ''inner'', Kind = NotExist, Err = RNil\<rparr>]
      [ArgOp ''outer'', ArgUserID ''u'', ArgError (RPtr 0)]
     = Return (RPtr 1,
        [\<lparr>UserID = ''u'', Op = ''inner'', Kind = NotExist, Err = RNil\<rparr>,
         \<lparr>UserID = ''u'', Op = ''outer'', Kind = NotExist, Err = RPtr 2\<rparr>,
         \<lparr>UserID = [], Op = ''inner'', Kind = Other, Err = RNil\<rparr>])"
    by (simp add: E_def deref_def zeroCell_def suppress_def Let_def)
  from run E_never_mutates_cause [OF run] show ?thesis by simp
qed

section \<open>Properties of the ingestion pipeline\<close>

lemma E_val_simps:
  "E_val [ArgOp p, ArgKind k] = Error [] p k Nil"
  "E_val [ArgOp p, ArgKind k, ArgUserID u, ArgError (Leaf l)] = Error u p k (Leaf l)"
  by (simp_all add: E_val_def)

subsection \<open>The guards of EventSubmit\<close>

text \<open>
  Claim C7, as amended. An anonymous caller is refused with \<open>Permission\<close>, whatever
  the batch. A caller with an identity who submits more than 50 identifiers is refused
  with \<open>Invalid\<close>. In both cases the world is returned as it was: no credential was
  asked for and nothing was fetched.
\<close>

theorem EventSubmit_guards:
  "(Info_ID (auth_User env) = [] \<longrightarrow>
      EventSubmit env w eventIDs = (Error [] ''Service.EventSubmit'' Permission Nil, w))
   \<and> (Info_ID (auth_User env) \<noteq> [] \<and> length eventIDs > 50 \<longrightarrow>
      EventSubmit env w eventIDs =
        (Error (Info_ID (auth_User env)) ''Service.EventSubmit'' Invalid
           (Leaf (LibraryError
              (''event list length ('' @ decimal (length eventIDs) @ '') > max (50)''))), w))"
  by (simp add: EventSubmit_def E_val_simps Let_def del: decimal.simps)

theorem EventSubmit_guards_witness:
  "Info_ID (auth_User (quietEnv \<lparr>Info_ID = ''user'', Info_IsAdmin = False\<rparr>)) \<noteq> []
   \<and> length (replicate 51 ''1'') > 50
   \<and> Info_ID (auth_User (quietEnv \<lparr>Info_ID = [], Info_IsAdmin = False\<rparr>)) = []
   \<and> EventSubmit (quietEnv \<lparr>Info_ID = ''user'', Info_IsAdmin = False\<rparr>) emptyWorld (replicate 51 ''1'')
       = (Error ''user'' ''Service.EventSubmit'' Invalid
           (Leaf (LibraryError ''event list length (51) > max (50)'')), emptyWorld)
   \<and> EventSubmit (quietEnv \<lparr>Info_ID = [], Info_IsAdmin = False\<rparr>) emptyWorld [''1'']
       = (Error [] ''Service.EventSubmit'' Permission Nil, emptyWorld)"
  using EventSubmit_guards [of "quietEnv \<lparr>Info_ID = ''user'', Info_IsAdmin = False\<rparr>" emptyWorld "replicate 51 ''1''"]
        EventSubmit_guards [of "quietEnv \<lparr>Info_ID = [], Info_IsAdmin = False\<rparr>" emptyWorld "[''1'']"]
  by (simp add: quietEnv_def)

text \<open>
  The claim as written gives every batch of more than 50 identifiers an \<open>Invalid\<close>
  error. The check of the caller comes first: an anonymous caller with 51 identifiers
  gets \<open>Permission\<close>.
\<close>

theorem EventSubmit_anonymous_large_batch_counterexample:
  "length (replicate 51 ''1'') > 50
   \<and> EventSubmit (quietEnv \<lparr>Info_ID = [], Info_IsAdmin = False\<rparr>) emptyWorld (replicate 51 ''1'')
       = (Error [] ''Service.EventSubmit'' Permission Nil, emptyWorld)
   \<and> \<not> Is Invalid (fst (EventSubmit (quietEnv \<lparr>Info_ID = [], Info_IsAdmin = False\<rparr>)
                            emptyWorld (replicate 51 ''1'')))"
  by (simp add: EventSubmit_def E_val_simps Let_def quietEnv_def)

subsection \<open>The retry loop\<close>

lemma retry_cancelled:
  "ctx_Err env w \<noteq> Nil \<Longrightarrow> retry env n f w = ((ctx_Err env w, [ReadCtxErr]), w)"
  by (cases n) simp_all

text \<open>
  What the loop does is a number of rounds "read the context, attempt, sleep" and a
  last round that stops after the reading or after the attempt. With \<open>n\<close> retries
  there are at most \<open>n\<close> sleeps, and the sleep of round \<open>i\<close> is the backoff for the
  \<open>n - 1 - i\<close> retries then left.
\<close>

lemma retry_rounds:
  "\<exists>bs tl. snd (fst (retry env n f w)) = concat (map (\<lambda>b. [ReadCtxErr, Attempt, Sleep b]) bs) @ tl
      \<and> (tl = [ReadCtxErr] \<or> tl = [ReadCtxErr, Attempt])
      \<and> length bs \<le> n
      \<and> (\<forall>i < length bs. \<exists>w'. bs ! i = backoff (n - 1 - i) (rand_Float64 env w'))"
proof (induction n arbitrary: w)
  case 0
  show ?case
    by (rule exI[of _ "[]"]) (auto simp: Let_def split: prod.splits)
next
  case (Suc n)
  show ?case
  proof (cases "ctx_Err env w \<noteq> Nil")
    case True
    then show ?thesis by (intro exI[of _ "[]"] exI[of _ "[ReadCtxErr]"]) simp
  next
    case False
    obtain err w1 where f: "f w = (err, w1)" by (cases "f w")
    show ?thesis
    proof (cases "err = Nil")
      case True
      with False f show ?thesis
        by (intro exI[of _ "[]"] exI[of _ "[ReadCtxErr, Attempt]"]) simp
    next
      case nz: False
      let ?b = "backoff n (rand_Float64 env w1)"
      let ?w2 = "called (Call_Sleep ?b) w1"
      from Suc.IH[of ?w2] obtain bs tl where
        ih: "snd (fst (retry env n f ?w2)) = concat (map (\<lambda>b. [ReadCtxErr, Attempt, Sleep b]) bs) @ tl"
          "tl = [ReadCtxErr] \<or> tl = [ReadCtxErr, Attempt]" "length bs \<le> n"
          "\<forall>i < length bs. \<exists>w'. bs ! i = backoff (n - 1 - i) (rand_Float64 env w')"
        by blast
      have steps: "snd (fst (retry env (Suc n) f w))
          = [ReadCtxErr, Attempt, Sleep ?b] @ snd (fst (retry env n f ?w2))"
        using False f nz by (simp add: Let_def split: prod.splits)
      have "\<forall>i < length (?b # bs). \<exists>w'. (?b # bs) ! i = backoff (Suc n - 1 - i) (rand_Float64 env w')"
      proof (intro allI impI)
        fix i assume "i < length (?b # bs)"
        then show "\<exists>w'. (?b # bs) ! i = backoff (Suc n - 1 - i) (rand_Float64 env w')"
          using ih(4) ih(3) by (cases i) (auto simp: Suc_diff_Suc)
      qed
      with steps ih show ?thesis
        by (intro exI[of _ "?b # bs"] exI[of _ tl]) simp
    qed
  qed
qed

lemma backoff_bounds:
  assumes "0 \<le> j" and "j < 1"
  shows "2 ^ r * Second \<le> backoff r j \<and> backoff r j < (2 ^ r + 1) * Second"
proof -
  have s: "real_of_int Second = 1000000000" by (simp add: Second_def)
  have lo: "real_of_int (2 ^ r * Second) \<le> (2 ^ r + j) * real_of_int Second"
    using assms by (simp add: s algebra_simps)
  have hi: "(2 ^ r + j) * real_of_int Second < real_of_int ((2 ^ r + 1) * Second)"
    using assms by (simp add: s algebra_simps)
  from lo have "2 ^ r * Second \<le> \<lfloor>(2 ^ r + j) * real_of_int Second\<rfloor>"
    by (simp add: le_floor_iff)
  moreover from hi have "\<lfloor>(2 ^ r + j) * real_of_int Second\<rfloor> < (2 ^ r + 1) * Second"
    by (simp add: floor_less_iff)
  ultimately show ?thesis by (simp add: backoff_def)
qed

lemma count_rounds:
  "length (filter (\<lambda>s. s = Attempt) (concat (map (\<lambda>b. [ReadCtxErr, Attempt, Sleep b]) bs))) = length bs"
  by (induction bs) simp_all

lemma retry_attempts:
  "length (filter (\<lambda>s. s = Attempt) (snd (fst (retry env n f w)))) \<le> Suc n"
proof -
  from retry_rounds[of env n f w] obtain bs tl where
    "snd (fst (retry env n f w)) = concat (map (\<lambda>b. [ReadCtxErr, Attempt, Sleep b]) bs) @ tl"
    "tl = [ReadCtxErr] \<or> tl = [ReadCtxErr, Attempt]" "length bs \<le> n"
    by blast
  then show ?thesis by (auto simp: count_rounds)
qed

text \<open>
  Claim C5, as amended. With \<open>n\<close> retries (3 in \<^verbatim>\<open>EventSubmit\<close>) the loop makes at
  most \<open>n + 1\<close> attempts. It reads the cancellation signal before each attempt and at
  no other point: every sleep follows an attempt at once. When the signal has fired
  at the reading, the loop returns the signal's error with no attempt and no sleep,
  and leaves the world as it is. The sleep after round \<open>i\<close> is
  \<open>2 ^ (n - 1 - i)\<close> seconds plus the jitter, which for a jitter in \<open>[0, 1)\<close> lies
  between \<open>2 ^ r\<close> and \<open>2 ^ r + 1\<close> seconds.
\<close>

theorem retry_schedule:
  "(ctx_Err env w \<noteq> Nil \<longrightarrow> retry env n f w = ((ctx_Err env w, [ReadCtxErr]), w))
   \<and> (\<exists>bs tl. snd (fst (retry env n f w))
                  = concat (map (\<lambda>b. [ReadCtxErr, Attempt, Sleep b]) bs) @ tl
         \<and> (tl = [ReadCtxErr] \<or> tl = [ReadCtxErr, Attempt])
         \<and> length bs \<le> n
         \<and> (\<forall>i < length bs. \<exists>w'. bs ! i = backoff (n - 1 - i) (rand_Float64 env w')))
   \<and> length (filter (\<lambda>s. s = Attempt) (snd (fst (retry env n f w)))) \<le> Suc n
   \<and> (0 \<le> j \<and> j < 1 \<longrightarrow> 2 ^ r * Second \<le> backoff r j \<and> backoff r j < (2 ^ r + 1) * Second)"
  using retry_cancelled[of env w n f] retry_rounds[of env n f w] retry_attempts[of env n f w]
    backoff_bounds[of j r]
  by blast

theorem retry_schedule_witness:
  "ctx_Err cancelledLaterEnv (called Call_RandomFBToken emptyWorld) \<noteq> Nil
   \<and> retry cancelledLaterEnv 3 failingAttempt (called Call_RandomFBToken emptyWorld)
       = ((Leaf ContextCanceled, [ReadCtxErr]), called Call_RandomFBToken emptyWorld)
   \<and> length (filter (\<lambda>s. s = Attempt)
        (snd (fst (retry cancelledLaterEnv 3 failingAttempt (called Call_RandomFBToken emptyWorld))))) \<le> 4
   \<and> (0::real) \<le> 1 / 2 \<and> (1::real) / 2 < 1
   \<and> 4 * Second \<le> backoff 2 (1 / 2) \<and> backoff 2 (1 / 2) < 5 * Second"
  using retry_schedule [of cancelledLaterEnv "called Call_RandomFBToken emptyWorld" 3
      failingAttempt "1 / 2" 2]
  by (simp add: cancelledLaterEnv_def quietEnv_def called_def emptyWorld_def)

text \<open>
  The claim as written has the signal read before each sleep too, and no sleep once
  the signal has fired. Here the context is cancelled during the first attempt: the
  loop still sleeps its four seconds, and only then reads the signal.
\<close>

theorem retry_sleeps_after_cancel_counterexample:
  "ctx_Err cancelledLaterEnv emptyWorld = Nil
   \<and> failingAttempt emptyWorld
       = (Leaf (LibraryError ''fetch failed''), called Call_RandomFBToken emptyWorld)
   \<and> ctx_Err cancelledLaterEnv (called Call_RandomFBToken emptyWorld) = Leaf ContextCanceled
   \<and> retry cancelledLaterEnv 3 failingAttempt emptyWorld
       = ((Leaf ContextCanceled, [ReadCtxErr, Attempt, Sleep 4000000000, ReadCtxErr]),
          emptyWorld\<lparr>calls := [Call_RandomFBToken, Call_Sleep 4000000000]\<rparr>)"
  by (simp add: numeral_3_eq_3 cancelledLaterEnv_def quietEnv_def failingAttempt_def
      emptyWorld_def called_def backoff_def Second_def Let_def)

subsection \<open>An expired credential\<close>

lemma E_val_not_Nil_1: "E_val [ArgString s, ArgError (E_val [ArgKind k])] \<noteq> Nil"
  by (simp add: E_val_def Let_def)

lemma RandomFBToken_holder:
  assumes "UserStore_RandomFBToken env w = ((fid, tok, Nil), w1)"
  shows "w1 = called Call_RandomFBToken w
     \<and> (\<exists>x \<in> set (users w). User_ID x = fid \<and> User_FacebookToken x = tok \<and> tok \<noteq> [])"
proof -
  let ?w1 = "called Call_RandomFBToken w"
  let ?holders = "filter (\<lambda>u. length (User_FacebookToken u) > 0) (users ?w1)"
  let ?offset = "nat \<lfloor>sql_random env ?w1 * real (length ?holders)\<rfloor>"
  from assms have ok: "sql_fails env ?w1 0 = Nil" "?offset < length ?holders"
    and r: "fid = User_ID (?holders ! ?offset)" "tok = User_FacebookToken (?holders ! ?offset)"
      "w1 = ?w1"
    using E_val_not_Nil_1
    by (auto simp: UserStore_RandomFBToken_def Let_def split: if_splits)
  from ok(2) have "?holders ! ?offset \<in> set ?holders" by (rule nth_mem)
  then have "?holders ! ?offset \<in> set (users w)" "User_FacebookToken (?holders ! ?offset) \<noteq> []"
    by (auto simp: called_def)
  with r show ?thesis by auto
qed

lemma Update_expire:
  assumes "UserStore_Update env w fid expireToken = ((u, Nil), w')"
    and "\<exists>x \<in> set (users w). User_ID x = fid"
  shows "users w' = map (\<lambda>x. if User_ID x = fid then x\<lparr>User_FacebookToken := []\<rparr> else x) (users w)"
proof -
  have ap: "\<And>x. applyUpdate expireToken x = x\<lparr>User_FacebookToken := []\<rparr>"
    by (simp add: applyUpdate_def expireToken_def Let_def)
  from assms(2) have known:
    "list_ex (\<lambda>x. User_ID x = fid) (users (called (Call_UserUpdate fid expireToken) w))"
    by (auto simp: called_def list_ex_iff)
  have nz: "\<And>k s. E_val [ArgKind k, ArgString s] \<noteq> Nil" by (simp add: E_val_def)
  from assms(1) known show ?thesis
    apply (simp add: UserStore_Update_def Let_def split: if_splits)
     apply (auto simp: ap called_def nz)
    done
qed

lemma GetEventInfo_users:
  "GetEventInfo env w tok ids = (r, w') \<Longrightarrow> users w' = users w"
  by (auto simp: GetEventInfo_def called_def Let_def)

lemma expired_attempt_result:
  assumes "UserStore_RandomFBToken env w = ((fetcherID, oauthToken, Nil), w1)"
    and "GetEventInfo env w1 oauthToken eventIDs = ((events, err), w2)"
    and "IsTokenExpired err"
    and "UserStore_Update env w2 fetcherID expireToken = ((u, Nil), w3)"
  shows "submitAttempt env userID eventIDs w =
           (Error userID ''Service.EventSubmit'' Other
              (Leaf (ErrorString ''facebook token expired'')), w3)"
proof -
  have e: "E_val [ArgOp ''Service.EventSubmit'', ArgUserID userID,
                  ArgString ''facebook token expired'']
     = Error userID ''Service.EventSubmit'' Other (Leaf (ErrorString ''facebook token expired''))"
    by (simp add: E_val_def)
  show ?thesis
    unfolding submitAttempt_def assms(1) Let_def prod.case assms(2) assms(4) e
    using assms(3) by simp
qed

lemma expired_attempt_users:
  assumes "UserStore_RandomFBToken env w = ((fetcherID, oauthToken, Nil), w1)"
    and "GetEventInfo env w1 oauthToken eventIDs = ((events, err), w2)"
    and "UserStore_Update env w2 fetcherID expireToken = ((u, Nil), w3)"
  shows "users w3 = map (\<lambda>x. if User_ID x = fetcherID then x\<lparr>User_FacebookToken := []\<rparr> else x) (users w)"
proof -
  from RandomFBToken_holder[OF assms(1)] have h: "w1 = called Call_RandomFBToken w"
    "\<exists>x \<in> set (users w). User_ID x = fetcherID" by blast+
  from h(1) have "users w1 = users w" by (simp add: called_def)
  with GetEventInfo_users[OF assms(2)] have u2: "users w2 = users w" by simp
  from Update_expire[OF assms(3)] h(2) u2 show ?thesis by simp
qed

lemma cleared_user_not_drawn:
  assumes "users w' = map (\<lambda>x. if User_ID x = fetcherID then x\<lparr>User_FacebookToken := []\<rparr> else x) us"
    and "UserStore_RandomFBToken env' w' = ((fid, tok, Nil), w'')"
  shows "fid \<noteq> fetcherID"
proof -
  from RandomFBToken_holder[OF assms(2)]
  obtain x where x: "x \<in> set (users w')" "User_ID x = fid" "User_FacebookToken x \<noteq> []" by auto
  from x(1) assms(1) obtain y where "y \<in> set us"
    "x = (if User_ID y = fetcherID then y\<lparr>User_FacebookToken := []\<rparr> else y)" by auto
  with x(2,3) show ?thesis by (auto split: if_splits)
qed

text \<open>
  Claim C6, as amended. In an attempt that drew the credential of user \<open>fetcherID\<close>,
  was told by the Graph API that the token has expired, and whose update of the user
  succeeded: the attempt fails with a domain error of kind \<open>Other\<close> (no kind is
  given to \<^verbatim>\<open>E\<close>), carrying the caller, the operation and the text
  \<^verbatim>\<open>facebook token expired\<close>; the token of \<open>fetcherID\<close> is empty in the user table
  and no other row has changed; and no later draw from that table returns
  \<open>fetcherID\<close>.
\<close>

theorem expired_credential_is_cleared:
  assumes "UserStore_RandomFBToken env w = ((fetcherID, oauthToken, Nil), w1)"
    and "GetEventInfo env w1 oauthToken eventIDs = ((events, err), w2)"
    and "IsTokenExpired err"
    and "UserStore_Update env w2 fetcherID expireToken = ((u, Nil), w3)"
  shows "submitAttempt env userID eventIDs w =
           (Error userID ''Service.EventSubmit'' Other
              (Leaf (ErrorString ''facebook token expired'')), w3)
     \<and> users w3 = map (\<lambda>x. if User_ID x = fetcherID then x\<lparr>User_FacebookToken := []\<rparr> else x) (users w)
     \<and> (\<forall>env' w' fid tok w''. users w' = users w3
            \<and> UserStore_RandomFBToken env' w' = ((fid, tok, Nil), w'') \<longrightarrow> fid \<noteq> fetcherID)"
  using expired_attempt_result[OF assms] expired_attempt_users[OF assms(1,2,4)]
    cleared_user_not_drawn[of _ fetcherID "users w"]
  by (metis (no_types, lifting))

theorem expired_credential_is_cleared_witness:
  "UserStore_RandomFBToken expiredTokenEnv oneTokenWorld
     = ((''alice'', ''t1'', Nil), called Call_RandomFBToken oneTokenWorld)
   \<and> IsTokenExpired (Leaf (FacebookError ''Error validating access token''
                       ''OAuthException'' 190 463 ''AbC''))
   \<and> fst (submitAttempt expiredTokenEnv ''bob'' [''1''] oneTokenWorld)
     = Error ''bob'' ''Service.EventSubmit'' Other (Leaf (ErrorString ''facebook token expired''))
   \<and> map User_FacebookToken (users (snd (submitAttempt expiredTokenEnv ''bob'' [''1''] oneTokenWorld)))
     = [[]]"
proof -
  let ?w1 = "called Call_RandomFBToken oneTokenWorld"
  let ?w2 = "called (Call_GetEventInfo ''t1'' [''1'']) ?w1"
  let ?err = "Leaf (FacebookError ''Error validating access token'' ''OAuthException'' 190 463 ''AbC'')"
  let ?w3 = "(called (Call_UserUpdate ''alice'' expireToken) ?w2)
               \<lparr>users := [zeroUser\<lparr>User_ID := ''alice'', User_FacebookToken := []\<rparr>]\<rparr>"
  have h1: "UserStore_RandomFBToken expiredTokenEnv oneTokenWorld = ((''alice'', ''t1'', Nil), ?w1)"
    by (simp add: UserStore_RandomFBToken_def expiredTokenEnv_def quietEnv_def oneTokenWorld_def
        emptyWorld_def called_def zeroUser_def Let_def)
  have h2: "GetEventInfo expiredTokenEnv ?w1 ''t1'' [''1''] = (([], ?err), ?w2)"
    by (simp add: GetEventInfo_def expiredTokenEnv_def quietEnv_def Let_def)
  have h3: "IsTokenExpired ?err" by simp
  have h4: "UserStore_Update expiredTokenEnv ?w2 ''alice'' expireToken
     = ((zeroUser\<lparr>User_ID := ''alice'', User_FacebookToken := []\<rparr>, Nil), ?w3)"
    by (simp add: UserStore_Update_def UserStore_GetByID_def applyUpdate_def expireToken_def
        expiredTokenEnv_def quietEnv_def oneTokenWorld_def emptyWorld_def called_def zeroUser_def Let_def)
  from expired_credential_is_cleared [OF h1 h2 h3 h4, of "''bob''"] h1 h3
  show ?thesis by (simp add: oneTokenWorld_def emptyWorld_def zeroUser_def called_def)
qed

text \<open>
  The claim as written has the attempt fail with an \<open>Internal\<close> error. The error
  of the attempt has kind \<open>Other\<close>, and \<^verbatim>\<open>Is(Internal, err)\<close> is false.
\<close>

theorem expired_credential_not_Internal_counterexample:
  "IsTokenExpired (snd (facebook_GetEventInfo expiredTokenEnv
       (called (Call_GetEventInfo ''t1'' [''1'']) (called Call_RandomFBToken oneTokenWorld)) ''t1'' [''1'']))
   \<and> fst (submitAttempt expiredTokenEnv ''bob'' [''1''] oneTokenWorld)
     = Error ''bob'' ''Service.EventSubmit'' Other (Leaf (ErrorString ''facebook token expired''))
   \<and> \<not> Is Internal (fst (submitAttempt expiredTokenEnv ''bob'' [''1''] oneTokenWorld))"
  by (simp add: submitAttempt_def UserStore_RandomFBToken_def GetEventInfo_def
      UserStore_Update_def UserStore_GetByID_def applyUpdate_def expiredTokenEnv_def quietEnv_def
      oneTokenWorld_def emptyWorld_def called_def zeroUser_def Let_def expireToken_def E_val_def)


section \<open>Properties of the selection engine\<close>

subsection \<open>The search loop, window by window\<close>
lemma searchLoop_late:
  "32 \<le> k \<Longrightarrow>
   searchLoop env userID now bounds ac (now + 10 * Minute + int k * timeWindow) w
     = (([], GenerateNoResults, Nil), w)"
  by (subst searchLoop.simps) (simp add: timeWindow_def Minute_def Hour_def Second_def)

lemma searchLoop_step:
  assumes "k < 32"
  shows "searchLoop env userID now bounds ac (now + 10 * Minute + int k * timeWindow) w =
     (let ((events, err), w1) = EventStore_Search env w
              \<lparr>Bounds = bounds, Start = now + 10 * Minute + int k * timeWindow,
               End = now + 10 * Minute + int k * timeWindow + timeWindow, IncludeBad = False\<rparr>
        in if Is NotExist err then (([], GenerateNoResults, Nil), w1)
           else if err \<noteq> Nil then
             (([], GenerateError,
               E_val [ArgOp ''Service.nextEvent'', ArgUserID userID,
                      ArgString ''search failed'', ArgError err]), w1)
           else
             let goodEvents = filter (\<lambda>event. \<not> badEvent now ac event) events
             in if length goodEvents = 0
                then searchLoop env userID now bounds ac (now + 10 * Minute + int (Suc k) * timeWindow) w1
                else
                  let n = rand_Int env w1 mod length goodEvents
                  in ((Event_ID (goodEvents ! n), GenerateOK, Nil), w1))"
proof -
  from assms have c: "\<not> (now + 10 * Minute + int k * timeWindow - now > 48 * Hour)"
    by (simp add: timeWindow_def Minute_def Hour_def Second_def)
  have a: "now + 10 * Minute + int k * timeWindow + timeWindow
      = now + 10 * Minute + int (Suc k) * timeWindow"
    by (simp add: algebra_simps)
  show ?thesis
    by (subst searchLoop.simps) (simp only: c if_False a)
qed

lemma searchLoop_trace:
  "\<exists>reqs. calls (snd (searchLoop env userID now bounds ac (now + 10 * Minute + int k * timeWindow) w))
            = calls w @ map Call_Search reqs
     \<and> length reqs \<le> 32 - k
     \<and> (\<forall>i < length reqs. reqs ! i =
           \<lparr>Bounds = bounds, Start = now + 10 * Minute + int (k + i) * timeWindow,
            End = now + 10 * Minute + int (k + i) * timeWindow + timeWindow, IncludeBad = False\<rparr>)
     \<and> dests (snd (searchLoop env userID now bounds ac (now + 10 * Minute + int k * timeWindow) w)) = dests w
     \<and> dests_sequence (snd (searchLoop env userID now bounds ac (now + 10 * Minute + int k * timeWindow) w)) = dests_sequence w
     \<and> users (snd (searchLoop env userID now bounds ac (now + 10 * Minute + int k * timeWindow) w)) = users w"
proof (induction "32 - k" arbitrary: k w)
  case 0
  then have "32 \<le> k" by simp
  from searchLoop_late[OF this] show ?case
    by (intro exI[of _ "[]"]) simp
next
  case (Suc n)
  then have k: "k < 32" and n: "n = 32 - Suc k" by simp_all
  let ?req = "\<lparr>Bounds = bounds, Start = now + 10 * Minute + int k * timeWindow,
               End = now + 10 * Minute + int k * timeWindow + timeWindow, IncludeBad = False\<rparr>"
  let ?w1 = "called (Call_Search ?req) w"
  obtain events err where s: "events_Search env ?w1 ?req = (events, err)"
    by (cases "events_Search env ?w1 ?req")
  then have es: "EventStore_Search env w ?req = ((events, err), ?w1)"
    by (simp add: EventStore_Search_def Let_def)
  let ?good = "filter (\<lambda>event. \<not> badEvent now ac event) events"
  show ?case
  proof (cases "\<not> Is NotExist err \<and> err = Nil \<and> length ?good = 0")
    case True
    then have eq: "searchLoop env userID now bounds ac (now + 10 * Minute + int k * timeWindow) w
       = searchLoop env userID now bounds ac (now + 10 * Minute + int (Suc k) * timeWindow) ?w1"
      by (subst searchLoop_step[OF k]) (simp add: es Let_def del: length_0_conv)
    from Suc.hyps(1)[OF n, of ?w1] obtain reqs where
      r: "calls (snd (searchLoop env userID now bounds ac (now + 10 * Minute + int (Suc k) * timeWindow) ?w1))
            = calls ?w1 @ map Call_Search reqs"
        "length reqs \<le> 32 - Suc k"
        "\<forall>i < length reqs. reqs ! i =
           \<lparr>Bounds = bounds, Start = now + 10 * Minute + int (Suc k + i) * timeWindow,
            End = now + 10 * Minute + int (Suc k + i) * timeWindow + timeWindow, IncludeBad = False\<rparr>"
        "dests (snd (searchLoop env userID now bounds ac (now + 10 * Minute + int (Suc k) * timeWindow) ?w1)) = dests ?w1"
        "dests_sequence (snd (searchLoop env userID now bounds ac (now + 10 * Minute + int (Suc k) * timeWindow) ?w1)) = dests_sequence ?w1"
        "users (snd (searchLoop env userID now bounds ac (now + 10 * Minute + int (Suc k) * timeWindow) ?w1)) = users ?w1"
      by blast
    have nth: "\<forall>i < length (?req # reqs). (?req # reqs) ! i =
           \<lparr>Bounds = bounds, Start = now + 10 * Minute + int (k + i) * timeWindow,
            End = now + 10 * Minute + int (k + i) * timeWindow + timeWindow, IncludeBad = False\<rparr>"
    proof (intro allI impI)
      fix i assume "i < length (?req # reqs)"
      then show "(?req # reqs) ! i =
           \<lparr>Bounds = bounds, Start = now + 10 * Minute + int (k + i) * timeWindow,
            End = now + 10 * Minute + int (k + i) * timeWindow + timeWindow, IncludeBad = False\<rparr>"
        using r(3) by (cases i) simp_all
    qed
    from r(1,2,4,5,6) k nth show ?thesis
      unfolding eq
      by (intro exI[of _ "?req # reqs"]) (simp add: called_def)
  next
    case False
    then have "snd (searchLoop env userID now bounds ac (now + 10 * Minute + int k * timeWindow) w) = ?w1"
      by (subst searchLoop_step[OF k]) (auto simp add: es Let_def simp del: length_0_conv)
    with k show ?thesis
      by (intro exI[of _ "[?req]"]) (simp add: called_def)
  qed
qed


lemma E_val_search_failed:
  "serr \<noteq> Nil \<Longrightarrow>
   \<exists>k c. E_val [ArgOp p, ArgUserID u, ArgString s, ArgError serr] = Error u p k c"
  by (cases serr) (auto simp: E_val_def Let_def)

lemma searchLoop_outcome:
  "\<exists>chosen result err w'.
     searchLoop env userID now bounds ac (now + 10 * Minute + int k * timeWindow) w
       = ((chosen, result, err), w')
     \<and> ((result = GenerateNoResults \<and> err = Nil \<and> chosen = [])
        \<or> (result = GenerateError \<and> chosen = []
            \<and> (\<exists>i events serr. i < 32
                 \<and> events_Search env w'
                      \<lparr>Bounds = bounds, Start = now + 10 * Minute + int i * timeWindow,
                       End = now + 10 * Minute + int i * timeWindow + timeWindow,
                       IncludeBad = False\<rparr> = (events, serr)
                 \<and> serr \<noteq> Nil \<and> \<not> Is NotExist serr
                 \<and> err = E_val [ArgOp ''Service.nextEvent'', ArgUserID userID,
                                 ArgString ''search failed'', ArgError serr]))
        \<or> (result = GenerateOK \<and> err = Nil
            \<and> (\<exists>i events. i < 32
                 \<and> events_Search env w'
                      \<lparr>Bounds = bounds, Start = now + 10 * Minute + int i * timeWindow,
                       End = now + 10 * Minute + int i * timeWindow + timeWindow,
                       IncludeBad = False\<rparr> = (events, Nil)
                 \<and> (\<exists>event \<in> set events. \<not> badEvent now ac event \<and> Event_ID event = chosen))))"
proof (induction "32 - k" arbitrary: k w)
  case 0
  then have "32 \<le> k" by simp
  from searchLoop_late[OF this] show ?case by simp
next
  case (Suc n)
  then have k: "k < 32" and n: "n = 32 - Suc k" by simp_all
  let ?req = "\<lparr>Bounds = bounds, Start = now + 10 * Minute + int k * timeWindow,
               End = now + 10 * Minute + int k * timeWindow + timeWindow, IncludeBad = False\<rparr>"
  let ?w1 = "called (Call_Search ?req) w"
  obtain events err where s: "events_Search env ?w1 ?req = (events, err)"
    by (cases "events_Search env ?w1 ?req")
  then have es: "EventStore_Search env w ?req = ((events, err), ?w1)"
    by (simp add: EventStore_Search_def Let_def)
  let ?good = "filter (\<lambda>event. \<not> badEvent now ac event) events"
  consider (notexist) "Is NotExist err"
    | (failed) "\<not> Is NotExist err" "err \<noteq> Nil"
    | (empty) "\<not> Is NotExist err" "err = Nil" "length ?good = 0"
    | (found) "\<not> Is NotExist err" "err = Nil" "length ?good \<noteq> 0"
    by blast
  then show ?case
  proof cases
    case notexist
    then have "searchLoop env userID now bounds ac (now + 10 * Minute + int k * timeWindow) w
       = (([], GenerateNoResults, Nil), ?w1)"
      by (subst searchLoop_step[OF k]) (simp add: es Let_def del: length_0_conv)
    then show ?thesis by simp
  next
    case failed
    then have "searchLoop env userID now bounds ac (now + 10 * Minute + int k * timeWindow) w
       = (([], GenerateError, E_val [ArgOp ''Service.nextEvent'', ArgUserID userID,
                                 ArgString ''search failed'', ArgError err]), ?w1)"
      by (subst searchLoop_step[OF k]) (simp add: es Let_def del: length_0_conv)
    with failed s k show ?thesis by auto
  next
    case empty
    then have eq: "searchLoop env userID now bounds ac (now + 10 * Minute + int k * timeWindow) w
       = searchLoop env userID now bounds ac (now + 10 * Minute + int (Suc k) * timeWindow) ?w1"
      by (subst searchLoop_step[OF k]) (simp add: es Let_def del: length_0_conv)
    from Suc.hyps(1)[OF n, of ?w1] show ?thesis unfolding eq .
  next
    case found
    let ?n = "rand_Int env ?w1 mod length ?good"
    from found(3) have g: "(length ?good = 0) = False" by simp
    from found(1,2) have eq: "searchLoop env userID now bounds ac (now + 10 * Minute + int k * timeWindow) w
       = ((Event_ID (?good ! ?n), GenerateOK, Nil), ?w1)"
      by (subst searchLoop_step[OF k]) (simp add: es Let_def g del: length_0_conv)
    from found have "?n < length ?good" by simp
    then have "?good ! ?n \<in> set ?good" by (rule nth_mem)
    then have "?good ! ?n \<in> set events" "\<not> badEvent now ac (?good ! ?n)" by simp_all
    with eq s found k show ?thesis by auto
  qed
qed


lemma start0: "now + 10 * Minute = now + 10 * Minute + int 0 * timeWindow"
  by simp

lemma E_val_text_last:
  "err \<noteq> Nil \<Longrightarrow>
   E_val [ArgOp p, ArgUserID u, ArgError err, ArgString s] = Error u p Other (Leaf (ErrorString s))"
  by (cases err) (simp_all add: E_val_def)

lemma ListForUser_frame:
  "DestStore_ListForUser env w userID page = (r, w1) \<Longrightarrow>
     w1 = called (Call_ListForUser userID page) w"
  by (auto simp: DestStore_ListForUser_def Let_def split: if_splits)

lemma GetByID_frame:
  "EventStore_GetByID env w i = (r, w1) \<Longrightarrow> w1 = called (Call_GetByID i) w"
  by (auto simp: EventStore_GetByID_def Let_def)


lemma reads_only_refl: "reads_only w w"
  by (simp add: reads_only_def)

lemma reads_only_trans: "reads_only w w1 \<Longrightarrow> reads_only w1 w2 \<Longrightarrow> reads_only w w2"
  unfolding reads_only_def by (elim conjE exE) (simp, blast)

lemma reads_only_called:
  "(\<exists>u p. c = Call_ListForUser u p) \<or> (\<exists>i. c = Call_GetByID i)
     \<or> (\<exists>ids. c = Call_GetMulti ids) \<or> (\<exists>r. c = Call_Search r)
   \<Longrightarrow> reads_only w (called c w)"
  by (auto simp: reads_only_def called_def)

lemma ListForUser_reads_only:
  "DestStore_ListForUser env w userID page = (r, w1) \<Longrightarrow> reads_only w w1"
  by (auto dest!: ListForUser_frame intro: reads_only_called)

lemma GetByID_reads_only:
  "EventStore_GetByID env w i = (r, w1) \<Longrightarrow> reads_only w w1"
  by (auto dest!: GetByID_frame intro: reads_only_called)

lemma nextEvent_list_failed:
  assumes "DestStore_ListForUser env w userID 0 = ((ac, err), w1)" and "err \<noteq> Nil"
  shows "nextEvent env w userID opts
     = (([], GenerateError, Error userID ''Service.nextEvent'' Other (Leaf (ErrorString ''list dests''))), w1)"
  using assms(2) unfolding nextEvent_def Let_def assms(1) prod.case
  by (simp add: E_val_text_last)

lemma nextEvent_last_failed:
  assumes "DestStore_ListForUser env w userID 0 = ((lastDest # rest, Nil), w1)"
    and "EventStore_GetByID env w1 (Dest_EventID lastDest) = ((lastEvent, err), w2)"
    and "err \<noteq> Nil"
  shows "nextEvent env w userID opts
     = (([], GenerateError, Error userID ''Service.nextEvent'' Other (Leaf (ErrorString ''get last event''))), w2)"
  using assms(3) unfolding nextEvent_def Let_def assms(1) prod.case list.case assms(2)
  by (simp add: E_val_text_last)

lemma nextEvent_wait:
  assumes "DestStore_ListForUser env w userID 0 = ((lastDest # rest, Nil), w1)"
    and "EventStore_GetByID env w1 (Dest_EventID lastDest) = ((lastEvent, Nil), w2)"
    and "Time_Now env w < Event_StartTime lastEvent"
  shows "nextEvent env w userID opts = (([], GenerateWait, Nil), w2)"
  using assms(3) unfolding nextEvent_def Let_def assms(1) prod.case list.case assms(2)
  by simp

lemma nextEvent_first:
  assumes "DestStore_ListForUser env w userID 0 = (([], Nil), w1)"
  shows "nextEvent env w userID opts
     = searchLoop env userID (Time_Now env w) (CircleGeom env (Req_Lat opts) (Req_Lng opts) 8000) []
         (Time_Now env w + 10 * Minute + int 0 * timeWindow) w1"
  unfolding nextEvent_def Let_def assms(1) prod.case by simp

lemma nextEvent_started:
  assumes "DestStore_ListForUser env w userID 0 = ((lastDest # rest, Nil), w1)"
    and "EventStore_GetByID env w1 (Dest_EventID lastDest) = ((lastEvent, Nil), w2)"
    and "\<not> Time_Now env w < Event_StartTime lastEvent"
  shows "nextEvent env w userID opts
     = searchLoop env userID (Time_Now env w) (CircleGeom env (Req_Lat opts) (Req_Lng opts) 8000)
         (lastDest # rest) (Time_Now env w + 10 * Minute + int 0 * timeWindow) w2"
  unfolding nextEvent_def Let_def assms(1) prod.case list.case assms(2)
  using assms(3) by simp

text \<open>The five ways through nextEvent.\<close>

lemma nextEvent_cases:
  obtains
    (list_failed) ac err w1 where
      "DestStore_ListForUser env w userID 0 = ((ac, err), w1)" "err \<noteq> Nil"
      "nextEvent env w userID opts
        = (([], GenerateError, Error userID ''Service.nextEvent'' Other (Leaf (ErrorString ''list dests''))), w1)"
  | (last_failed) lastDest rest w1 lastEvent err w2 where
      "DestStore_ListForUser env w userID 0 = ((lastDest # rest, Nil), w1)"
      "EventStore_GetByID env w1 (Dest_EventID lastDest) = ((lastEvent, err), w2)" "err \<noteq> Nil"
      "nextEvent env w userID opts
        = (([], GenerateError, Error userID ''Service.nextEvent'' Other (Leaf (ErrorString ''get last event''))), w2)"
  | (wait) lastDest rest w1 lastEvent w2 where
      "DestStore_ListForUser env w userID 0 = ((lastDest # rest, Nil), w1)"
      "EventStore_GetByID env w1 (Dest_EventID lastDest) = ((lastEvent, Nil), w2)"
      "Time_Now env w < Event_StartTime lastEvent"
      "nextEvent env w userID opts = (([], GenerateWait, Nil), w2)"
  | (search) ac w1 w2 where
      "DestStore_ListForUser env w userID 0 = ((ac, Nil), w1)"
      "reads_only w w2"
      "nextEvent env w userID opts
        = searchLoop env userID (Time_Now env w) (CircleGeom env (Req_Lat opts) (Req_Lng opts) 8000) ac
            (Time_Now env w + 10 * Minute + int 0 * timeWindow) w2"
proof -
  obtain ac err w1 where l: "DestStore_ListForUser env w userID 0 = ((ac, err), w1)"
    by (metis prod.exhaust)
  show ?thesis
  proof (cases "err = Nil")
    case False
    from list_failed[OF l False nextEvent_list_failed[OF l False]] show ?thesis .
  next
    case True
    show ?thesis
    proof (cases ac)
      case Nil
      with l True have l': "DestStore_ListForUser env w userID 0 = (([], error.Nil), w1)" by simp
      from nextEvent_first[OF l'] Nil search[of ac w1 w1] l True ListForUser_reads_only[OF l]
      show ?thesis by auto
    next
      case (Cons lastDest rest)
      with l True have l': "DestStore_ListForUser env w userID 0 = ((lastDest # rest, error.Nil), w1)"
        by simp
      obtain lastEvent gerr w2 where
        g: "EventStore_GetByID env w1 (Dest_EventID lastDest) = ((lastEvent, gerr), w2)"
        by (metis prod.exhaust)
      show ?thesis
      proof (cases "gerr = Nil")
        case False
        from last_failed[OF l' g False nextEvent_last_failed[OF l' g False]] show ?thesis .
      next
        case gn: True
        with g have g': "EventStore_GetByID env w1 (Dest_EventID lastDest) = ((lastEvent, error.Nil), w2)"
          by simp
        show ?thesis
        proof (cases "Time_Now env w < Event_StartTime lastEvent")
          case True
          from wait[OF l' g' True nextEvent_wait[OF l' g' True]] show ?thesis .
        next
          case False
          from nextEvent_started[OF l' g' False] Cons search[of ac w1 w2] l True
            reads_only_trans[OF ListForUser_reads_only[OF l] GetByID_reads_only[OF g]]
          show ?thesis by auto
        qed
      qed
    qed
  qed
qed


lemma badEvent_iff:
  "badEvent now ac event \<longleftrightarrow>
     Event_EndTime event < now + 30 * Minute \<or> (\<exists>d \<in> set ac. Dest_EventID d = Event_ID event)"
  by (auto simp: badEvent_def Let_def list_ex_iff)

lemma searchLoop_result:
  assumes "searchLoop env userID now bounds ac (now + 10 * Minute + int k * timeWindow) w
             = ((chosen, result, err), w')"
  obtains
    (none) "result = GenerateNoResults" "err = Nil" "chosen = []"
  | (failed) i events serr where "result = GenerateError" "chosen = []" "i < 32"
      "events_Search env w'
         \<lparr>Bounds = bounds, Start = now + 10 * Minute + int i * timeWindow,
          End = now + 10 * Minute + int i * timeWindow + timeWindow, IncludeBad = False\<rparr>
         = (events, serr)"
      "serr \<noteq> Nil" "\<not> Is NotExist serr"
      "err = E_val [ArgOp ''Service.nextEvent'', ArgUserID userID,
                    ArgString ''search failed'', ArgError serr]"
  | (found) i events event where "result = GenerateOK" "err = Nil" "i < 32"
      "events_Search env w'
         \<lparr>Bounds = bounds, Start = now + 10 * Minute + int i * timeWindow,
          End = now + 10 * Minute + int i * timeWindow + timeWindow, IncludeBad = False\<rparr>
         = (events, Nil)"
      "event \<in> set events" "\<not> badEvent now ac event" "Event_ID event = chosen"
proof -
  from searchLoop_outcome[of env userID now bounds ac k w] assms
  have "(result = GenerateNoResults \<and> err = Nil \<and> chosen = [])
        \<or> (result = GenerateError \<and> chosen = []
            \<and> (\<exists>i events serr. i < 32
                 \<and> events_Search env w'
                      \<lparr>Bounds = bounds, Start = now + 10 * Minute + int i * timeWindow,
                       End = now + 10 * Minute + int i * timeWindow + timeWindow,
                       IncludeBad = False\<rparr> = (events, serr)
                 \<and> serr \<noteq> Nil \<and> \<not> Is NotExist serr
                 \<and> err = E_val [ArgOp ''Service.nextEvent'', ArgUserID userID,
                                 ArgString ''search failed'', ArgError serr]))
        \<or> (result = GenerateOK \<and> err = Nil
            \<and> (\<exists>i events. i < 32
                 \<and> events_Search env w'
                      \<lparr>Bounds = bounds, Start = now + 10 * Minute + int i * timeWindow,
                       End = now + 10 * Minute + int i * timeWindow + timeWindow,
                       IncludeBad = False\<rparr> = (events, Nil)
                 \<and> (\<exists>event \<in> set events. \<not> badEvent now ac event \<and> Event_ID event = chosen)))"
    by simp
  then show thesis
  proof (elim disjE conjE exE bexE)
    assume "result = GenerateNoResults" "err = Nil" "chosen = []"
    then show thesis by (rule none)
  next
    fix i events serr
    assume "result = GenerateError" "chosen = []" "i < 32"
      "events_Search env w'
         \<lparr>Bounds = bounds, Start = now + 10 * Minute + int i * timeWindow,
          End = now + 10 * Minute + int i * timeWindow + timeWindow, IncludeBad = False\<rparr>
         = (events, serr)"
      "serr \<noteq> Nil" "\<not> Is NotExist serr"
      "err = E_val [ArgOp ''Service.nextEvent'', ArgUserID userID,
                    ArgString ''search failed'', ArgError serr]"
    then show thesis by (rule failed)
  next
    fix i events event
    assume "result = GenerateOK" "err = Nil" "i < 32"
      "events_Search env w'
         \<lparr>Bounds = bounds, Start = now + 10 * Minute + int i * timeWindow,
          End = now + 10 * Minute + int i * timeWindow + timeWindow, IncludeBad = False\<rparr>
         = (events, Nil)"
      "event \<in> set events" "\<not> badEvent now ac event" "Event_ID event = chosen"
    then show thesis by (rule found)
  qed
qed

lemma searchLoop_no_candidates:
  assumes "\<forall>w' i. i < 32 \<longrightarrow>
          (\<exists>events err.
             events_Search env w'
               \<lparr>Bounds = bounds, Start = now + 10 * Minute + int i * timeWindow,
                End = now + 10 * Minute + int i * timeWindow + timeWindow, IncludeBad = False\<rparr>
               = (events, err)
             \<and> (err = Nil \<or> Is NotExist err)
             \<and> (\<forall>event \<in> set events.
                   Event_EndTime event < now + 30 * Minute
                   \<or> (\<exists>d \<in> set ac. Dest_EventID d = Event_ID event)))"
  shows "fst (searchLoop env userID now bounds ac (now + 10 * Minute + int k * timeWindow) w)
              = ([], GenerateNoResults, Nil)"
proof -
  obtain chosen result err w' where
    r: "searchLoop env userID now bounds ac (now + 10 * Minute + int k * timeWindow) w
          = ((chosen, result, err), w')"
    by (metis prod.exhaust)
  from r show ?thesis
  proof (cases rule: searchLoop_result)
    case none
    with r show ?thesis by simp
  next
    case (failed i events serr)
    with assms[rule_format, of i w'] show ?thesis by auto
  next
    case (found i events event)
    with assms[rule_format, of i w'] show ?thesis by (auto simp: badEvent_iff)
  qed
qed

subsection \<open>The loop ends\<close>

text \<open>
  Claim C4. \<open>searchLoop\<close> is a total function: the distance of \<open>searchTime\<close> from
  \<open>now + 48 hours\<close> shrinks by ninety minutes with each turn. From
  \<open>now + 10 minutes\<close> it issues at most 32 searches, the \<open>i\<close>-th for the window
  that starts \<open>i\<close> times ninety minutes later, and writes nothing else to the list of
  calls. When each of these windows, whenever it is asked for, yields no error other
  than \<open>NotExist\<close> and only events that end before \<open>now + 30 minutes\<close> or are
  among the destinations already chosen, the result is \<open>GenerateNoResults\<close> with no
  error.
\<close>

theorem search_window_loop_bounded:
  "(\<exists>reqs. calls (snd (searchLoop env userID now bounds ac (now + 10 * Minute) w))
             = calls w @ map Call_Search reqs
      \<and> length reqs \<le> 32
      \<and> (\<forall>i < length reqs. reqs ! i =
            \<lparr>Bounds = bounds, Start = now + 10 * Minute + int i * timeWindow,
             End = now + 10 * Minute + int i * timeWindow + timeWindow, IncludeBad = False\<rparr>))
   \<and> ((\<forall>w' i. i < 32 \<longrightarrow>
          (\<exists>events err.
             events_Search env w'
               \<lparr>Bounds = bounds, Start = now + 10 * Minute + int i * timeWindow,
                End = now + 10 * Minute + int i * timeWindow + timeWindow, IncludeBad = False\<rparr>
               = (events, err)
             \<and> (err = Nil \<or> Is NotExist err)
             \<and> (\<forall>event \<in> set events.
                   Event_EndTime event < now + 30 * Minute
                   \<or> (\<exists>d \<in> set ac. Dest_EventID d = Event_ID event))))
        \<longrightarrow> fst (searchLoop env userID now bounds ac (now + 10 * Minute) w)
              = ([], GenerateNoResults, Nil))"
proof (rule conjI)
  from searchLoop_trace[of env userID now bounds ac 0 w]
  obtain reqs where
    "calls (snd (searchLoop env userID now bounds ac (now + 10 * Minute) w))
       = calls w @ map Call_Search reqs"
    "length reqs \<le> 32"
    "\<forall>i < length reqs. reqs ! i =
        \<lparr>Bounds = bounds, Start = now + 10 * Minute + int i * timeWindow,
         End = now + 10 * Minute + int i * timeWindow + timeWindow, IncludeBad = False\<rparr>"
    by auto
  then show "\<exists>reqs. calls (snd (searchLoop env userID now bounds ac (now + 10 * Minute) w))
             = calls w @ map Call_Search reqs
      \<and> length reqs \<le> 32
      \<and> (\<forall>i < length reqs. reqs ! i =
            \<lparr>Bounds = bounds, Start = now + 10 * Minute + int i * timeWindow,
             End = now + 10 * Minute + int i * timeWindow + timeWindow, IncludeBad = False\<rparr>)"
    by blast
next
  from searchLoop_no_candidates[of env bounds now ac userID 0 w]
  show "(\<forall>w' i. i < 32 \<longrightarrow>
          (\<exists>events err.
             events_Search env w'
               \<lparr>Bounds = bounds, Start = now + 10 * Minute + int i * timeWindow,
                End = now + 10 * Minute + int i * timeWindow + timeWindow, IncludeBad = False\<rparr>
               = (events, err)
             \<and> (err = Nil \<or> Is NotExist err)
             \<and> (\<forall>event \<in> set events.
                   Event_EndTime event < now + 30 * Minute
                   \<or> (\<exists>d \<in> set ac. Dest_EventID d = Event_ID event))))
        \<longrightarrow> fst (searchLoop env userID now bounds ac (now + 10 * Minute) w)
              = ([], GenerateNoResults, Nil)"
    by simp
qed



lemma searchLoop_reads_only:
  "reads_only w (snd (searchLoop env userID now bounds ac (now + 10 * Minute + int k * timeWindow) w))"
proof -
  from searchLoop_trace[of env userID now bounds ac k w]
  obtain reqs where
    "calls (snd (searchLoop env userID now bounds ac (now + 10 * Minute + int k * timeWindow) w))
        = calls w @ map Call_Search reqs"
    "dests (snd (searchLoop env userID now bounds ac (now + 10 * Minute + int k * timeWindow) w)) = dests w"
    "dests_sequence (snd (searchLoop env userID now bounds ac (now + 10 * Minute + int k * timeWindow) w)) = dests_sequence w"
    "users (snd (searchLoop env userID now bounds ac (now + 10 * Minute + int k * timeWindow) w)) = users w"
    by blast
  then show ?thesis
    unfolding reads_only_def by (intro conjI exI[of _ "map Call_Search reqs"]) auto
qed

lemma nextEvent_reads_only:
  "reads_only w (snd (nextEvent env w userID opts))"
proof (cases rule: nextEvent_cases[of env w userID opts])
  case (list_failed ac err w1)
  from ListForUser_reads_only[OF list_failed(1)] list_failed(3) show ?thesis by simp
next
  case (last_failed lastDest rest w1 lastEvent err w2)
  from reads_only_trans[OF ListForUser_reads_only[OF last_failed(1)] GetByID_reads_only[OF last_failed(2)]]
    last_failed(4)
  show ?thesis by simp
next
  case (wait lastDest rest w1 lastEvent w2)
  from reads_only_trans[OF ListForUser_reads_only[OF wait(1)] GetByID_reads_only[OF wait(2)]] wait(4)
  show ?thesis by simp
next
  case (search ac w1 w2)
  from search(3) searchLoop_reads_only[of w2 env userID "Time_Now env w" _ ac 0]
  show ?thesis using reads_only_trans[OF search(2)] by simp
qed

lemma GetMulti_reads_only:
  "EventStore_GetMulti env w ids = (r, w1) \<Longrightarrow> reads_only w w1"
  by (auto simp: EventStore_GetMulti_def Let_def intro: reads_only_called)

lemma DestList_reads_only:
  "reads_only w (snd (DestList env w page))"
proof (cases "Info_ID (auth_User env) = []")
  case True
  then show ?thesis by (simp add: DestList_def reads_only_refl)
next
  case False
  obtain ds lerr w1 where l: "DestStore_ListForUser env w (Info_ID (auth_User env)) page = ((ds, lerr), w1)"
    by (metis prod.exhaust)
  obtain es merr w2 where m: "EventStore_GetMulti env w1 (map Dest_EventID ds) = ((es, merr), w2)"
    by (metis prod.exhaust)
  from False l m have "snd (DestList env w page) = w1 \<or> snd (DestList env w page) = w2"
    by (simp add: DestList_def Let_def)
  with ListForUser_reads_only[OF l] GetMulti_reads_only[OF m] show ?thesis
    by (auto intro: reads_only_trans)
qed

lemma listReply_props:
  "reads_only w (snd (listReply env w reply userID))
   \<and> (\<forall>reply' err. fst (listReply env w reply userID) = Return (reply', err)
         \<longrightarrow> Result reply' = Result reply)
   \<and> (fst (listReply env w reply userID) = Panic
         \<longrightarrow> (\<exists>ds w3. DestList env w 0 = ((ds, Nil), w3) \<and> sideloaded ds = None))"
proof -
  obtain ds err w3 where d: "DestList env w 0 = ((ds, err), w3)" by (metis prod.exhaust)
  from DestList_reads_only[of w env 0] d have r: "reads_only w w3" by simp
  show ?thesis
    using r d by (auto simp: listReply_def Let_def split: option.splits)
qed

lemma Create_frame:
  assumes "DestStore_Create env w d = ((d', err), w')"
  shows "users w' = users w
     \<and> (\<exists>cs. calls w' = calls w @ cs)
     \<and> (dests w' = dests w
         \<or> (\<exists>row. dests w' = dests w @ [row]
               \<and> Dest_UserID row = Dest_UserID d \<and> Dest_EventID row = Dest_EventID d))"
  using assms
  by (auto simp: DestStore_Create_def Let_def called_def split: if_splits simp del: decimal.simps)

lemma E_val_internal_wrap:
  "err \<noteq> Nil \<Longrightarrow>
   \<exists>c. E_val [ArgOp p, ArgKind Internal, ArgString s, ArgError err] = Error [] p Internal c"
  by (cases err) (auto simp: E_val_def Let_def)

lemma authorised_unique: "authorised env opts u \<Longrightarrow> authorised env opts u' \<Longrightarrow> u = u'"
  by (simp add: authorised_def)

lemma DestGenerate_cases:
  obtains
    (denied) "\<forall>userID. \<not> authorised env opts userID"
      "DestGenerate env w opts
         = (Return (\<lparr>Result = GenerateOK, Dests = [], Events = []\<rparr>,
                    Error [] ''Service.DestGenerate'' Permission Nil), w)"
  | (failed) userID chosen result err w1 c where "authorised env opts userID"
      "nextEvent env w userID opts = ((chosen, result, err), w1)" "err \<noteq> Nil"
      "DestGenerate env w opts
         = (Return (\<lparr>Result = GenerateOK, Dests = [], Events = []\<rparr>,
                    Error [] ''Service.DestGenerate'' Internal c), w1)"
  | (no_dest) userID chosen result w1 where "authorised env opts userID"
      "nextEvent env w userID opts = ((chosen, result, Nil), w1)" "result \<noteq> GenerateOK"
      "DestGenerate env w opts
         = listReply env w1 \<lparr>Result = result, Dests = [], Events = []\<rparr> userID"
  | (create_failed) userID chosen w1 d err w2 where "authorised env opts userID"
      "nextEvent env w userID opts = ((chosen, GenerateOK, Nil), w1)"
      "DestStore_Create env w1 (zeroDest\<lparr>Dest_UserID := userID, Dest_EventID := chosen\<rparr>)
         = ((d, err), w2)" "err \<noteq> Nil"
      "DestGenerate env w opts
         = (Return (\<lparr>Result = GenerateOK, Dests = [], Events = []\<rparr>,
              E_val [ArgOp ''Service.DestGenerate'', ArgUserID userID, ArgKind Internal,
                     ArgString ''create dest'', ArgError err]), w2)"
  | (created) userID chosen w1 d w2 where "authorised env opts userID"
      "nextEvent env w userID opts = ((chosen, GenerateOK, Nil), w1)"
      "DestStore_Create env w1 (zeroDest\<lparr>Dest_UserID := userID, Dest_EventID := chosen\<rparr>)
         = ((d, Nil), w2)"
      "DestGenerate env w opts
         = listReply env w2 \<lparr>Result = GenerateOK, Dests = [], Events = []\<rparr> userID"
proof -
  let ?user = "if Req_UserID opts = ''me'' \<or> Req_UserID opts = []
               then Info_ID (auth_User env) else Req_UserID opts"
  show ?thesis
  proof (cases "authorised env opts ?user")
    case False
    then have "\<forall>userID. \<not> authorised env opts userID" by (auto simp: authorised_def)
    moreover from False have "DestGenerate env w opts
         = (Return (\<lparr>Result = GenerateOK, Dests = [], Events = []\<rparr>,
                    Error [] ''Service.DestGenerate'' Permission Nil), w)"
      by (auto simp: DestGenerate_def authorised_def Let_def E_val_def)
    ultimately show ?thesis by (rule denied)
  next
    case True
    then have a: "Info_ID (auth_User env) \<noteq> []"
      "\<not> (?user \<noteq> Info_ID (auth_User env) \<and> \<not> Info_IsAdmin (auth_User env))"
      by (auto simp: authorised_def)
    obtain chosen result err w1 where n: "nextEvent env w ?user opts = ((chosen, result, err), w1)"
      by (metis prod.exhaust)
    have dg: "DestGenerate env w opts =
       (if err \<noteq> Nil then
          (Return (\<lparr>Result = GenerateOK, Dests = [], Events = []\<rparr>,
             E_val [ArgOp ''Service.DestGenerate'', ArgKind Internal,
                    ArgString ''nextEvent failed'', ArgError err]), w1)
        else if result = GenerateOK then
          (let ((_, err), w2) = DestStore_Create env w1
                  (zeroDest\<lparr>Dest_UserID := ?user, Dest_EventID := chosen\<rparr>)
           in if err \<noteq> Nil then
                (Return (\<lparr>Result = GenerateOK, Dests = [], Events = []\<rparr>,
                   E_val [ArgOp ''Service.DestGenerate'', ArgUserID ?user, ArgKind Internal,
                          ArgString ''create dest'', ArgError err]), w2)
              else listReply env w2 \<lparr>Result = GenerateOK, Dests = [], Events = []\<rparr> ?user)
        else listReply env w1 \<lparr>Result = result, Dests = [], Events = []\<rparr> ?user)"
      unfolding DestGenerate_def Let_def using a
      by (simp only: if_False n prod.case) (simp split: prod.splits)
    show ?thesis
    proof (cases "err = Nil")
      case False
      from E_val_internal_wrap[OF False] obtain c where
        "E_val [ArgOp ''Service.DestGenerate'', ArgKind Internal,
                ArgString ''nextEvent failed'', ArgError err]
           = Error [] ''Service.DestGenerate'' Internal c" by blast
      with dg False failed[OF True n False] show ?thesis by simp
    next
      case en: True
      show ?thesis
      proof (cases "result = GenerateOK")
        case False
        with dg en no_dest[OF True _ False, of chosen w1] n show ?thesis by simp
      next
        case ok: True
        obtain d cerr w2 where c: "DestStore_Create env w1
              (zeroDest\<lparr>Dest_UserID := ?user, Dest_EventID := chosen\<rparr>) = ((d, cerr), w2)"
          by (metis prod.exhaust)
        show ?thesis
        proof (cases "cerr = Nil")
          case False
          with dg en ok c create_failed[OF True _ c False] n show ?thesis by simp
        next
          case True
          with dg en ok c created[OF \<open>authorised env opts ?user\<close>, of chosen w1 d w2] n
          show ?thesis by simp
        qed
      qed
    qed
  qed
qed

lemma nextEvent_error_iff:
  assumes "nextEvent env w userID opts = ((chosen, result, err), w')"
  shows "(result = GenerateError \<longleftrightarrow> err \<noteq> Nil)
     \<and> (err \<noteq> Nil \<longrightarrow> chosen = [] \<and> (\<exists>k c. err = Error userID ''Service.nextEvent'' k c))"
proof (cases rule: nextEvent_cases[of env w userID opts])
  case (list_failed ac lerr w1)
  with assms show ?thesis by auto
next
  case (last_failed lastDest rest w1 lastEvent gerr w2)
  with assms show ?thesis by auto
next
  case (wait lastDest rest w1 lastEvent w2)
  with assms show ?thesis by auto
next
  case (search ac w1 w2)
  with assms have s: "searchLoop env userID (Time_Now env w)
      (CircleGeom env (Req_Lat opts) (Req_Lng opts) 8000) ac
      (Time_Now env w + 10 * Minute + int 0 * timeWindow) w2 = ((chosen, result, err), w')"
    by simp
  from s show ?thesis
  proof (cases rule: searchLoop_result)
    case none
    then show ?thesis by simp
  next
    case (failed i events serr)
    from E_val_search_failed[OF failed(5), of "''Service.nextEvent''" userID "''search failed''"] failed
    show ?thesis by auto
  next
    case (found i events event)
    then show ?thesis by simp
  qed
qed

lemma searchLoop_search_failed:
  assumes "i < 32"
    and "EventStore_Search env w
           \<lparr>Bounds = bounds, Start = now + 10 * Minute + int i * timeWindow,
            End = now + 10 * Minute + int i * timeWindow + timeWindow, IncludeBad = False\<rparr>
           = ((events, serr), w1)"
    and "serr \<noteq> Nil" and "\<not> Is NotExist serr"
  shows "\<exists>k c. searchLoop env userID now bounds ac (now + 10 * Minute + int i * timeWindow) w
           = (([], GenerateError, Error userID ''Service.nextEvent'' k c), w1)"
proof -
  from assms(3,4) have "searchLoop env userID now bounds ac (now + 10 * Minute + int i * timeWindow) w
       = (([], GenerateError, E_val [ArgOp ''Service.nextEvent'', ArgUserID userID,
                                 ArgString ''search failed'', ArgError serr]), w1)"
    by (subst searchLoop_step[OF assms(1)]) (simp add: assms(2) Let_def del: length_0_conv)
  with E_val_search_failed[OF assms(3), of "''Service.nextEvent''" userID "''search failed''"]
  show ?thesis by auto
qed

lemma searchLoop_search_not_exist:
  assumes "i < 32"
    and "EventStore_Search env w
           \<lparr>Bounds = bounds, Start = now + 10 * Minute + int i * timeWindow,
            End = now + 10 * Minute + int i * timeWindow + timeWindow, IncludeBad = False\<rparr>
           = ((events, serr), w1)"
    and "Is NotExist serr"
  shows "searchLoop env userID now bounds ac (now + 10 * Minute + int i * timeWindow) w
           = (([], GenerateNoResults, Nil), w1)"
  using assms(3)
  by (subst searchLoop_step[OF assms(1)]) (simp add: assms(2) Let_def del: length_0_conv)

lemma DestGenerate_nextEvent_failed:
  assumes "authorised env opts userID"
    and "nextEvent env w userID opts = ((chosen, result, err), w')" and "err \<noteq> Nil"
  shows "(\<exists>reply c. DestGenerate env w opts
            = (Return (reply, Error [] ''Service.DestGenerate'' Internal c), w'))
     \<and> reads_only w w'"
proof -
  from nextEvent_reads_only[of w env userID opts] assms(2) have r: "reads_only w w'" by simp
  show ?thesis
  proof (cases rule: DestGenerate_cases[of env opts w])
    case denied
    with assms(1) show ?thesis by simp
  next
    case (failed userID' chosen' result' err' w1 c)
    with assms authorised_unique[OF assms(1) failed(1)] r show ?thesis by auto
  next
    case (no_dest userID' chosen' result' w1)
    with assms authorised_unique[OF assms(1) no_dest(1)] show ?thesis by auto
  next
    case (create_failed userID' chosen' w1 d cerr w2)
    with assms authorised_unique[OF assms(1) create_failed(1)] show ?thesis by auto
  next
    case (created userID' chosen' w1 d w2)
    with assms authorised_unique[OF assms(1) created(1)] show ?thesis by auto
  qed
qed

subsection \<open>Failures of the stores during the search\<close>

text \<open>
  Claim C3, as amended. When the listing of the history fails, when the lookup of the
  last event fails, or when the search of a window fails with an error that is not of
  kind \<open>NotExist\<close>, the result of \<^verbatim>\<open>nextEvent\<close> is \<open>GenerateError\<close>, with a domain
  error that names the user and the operation. A search that fails with a
  \<open>NotExist\<close> error ends the loop with \<open>GenerateNoResults\<close> and no error. The
  result of \<^verbatim>\<open>nextEvent\<close> is \<open>GenerateError\<close> exactly when it returns an error; and
  for an authorised caller \<^verbatim>\<open>DestGenerate\<close> then returns a domain error of kind
  \<open>Internal\<close>, having written nothing.
\<close>

theorem candidate_search_failure:
  "(DestStore_ListForUser env w userID 0 = ((ac, lerr), w1) \<and> lerr \<noteq> Nil \<longrightarrow>
       (\<exists>k c. nextEvent env w userID opts
                 = (([], GenerateError, Error userID ''Service.nextEvent'' k c), w1)))
   \<and> (DestStore_ListForUser env w userID 0 = ((lastDest # rest, Nil), w1)
        \<and> EventStore_GetByID env w1 (Dest_EventID lastDest) = ((lastEvent, gerr), w2)
        \<and> gerr \<noteq> Nil \<longrightarrow>
       (\<exists>k c. nextEvent env w userID opts
                 = (([], GenerateError, Error userID ''Service.nextEvent'' k c), w2)))
   \<and> (i < 32
        \<and> EventStore_Search env w
             \<lparr>Bounds = bounds, Start = now + 10 * Minute + int i * timeWindow,
              End = now + 10 * Minute + int i * timeWindow + timeWindow, IncludeBad = False\<rparr>
             = ((events, serr), w1)
        \<and> serr \<noteq> Nil \<and> \<not> Is NotExist serr \<longrightarrow>
       (\<exists>k c. searchLoop env userID now bounds ac (now + 10 * Minute + int i * timeWindow) w
                 = (([], GenerateError, Error userID ''Service.nextEvent'' k c), w1)))
   \<and> (i < 32
        \<and> EventStore_Search env w
             \<lparr>Bounds = bounds, Start = now + 10 * Minute + int i * timeWindow,
              End = now + 10 * Minute + int i * timeWindow + timeWindow, IncludeBad = False\<rparr>
             = ((events, serr), w1)
        \<and> Is NotExist serr \<longrightarrow>
       searchLoop env userID now bounds ac (now + 10 * Minute + int i * timeWindow) w
         = (([], GenerateNoResults, Nil), w1))
   \<and> (nextEvent env w userID opts = ((chosen, result, err), w') \<longrightarrow>
       (result = GenerateError \<longleftrightarrow> err \<noteq> Nil))
   \<and> (authorised env opts userID
        \<and> nextEvent env w userID opts = ((chosen, result, err), w') \<and> err \<noteq> Nil \<longrightarrow>
       (\<exists>reply c. DestGenerate env w opts
                     = (Return (reply, Error [] ''Service.DestGenerate'' Internal c), w'))
       \<and> reads_only w w')"
proof (intro conjI impI)
  assume "DestStore_ListForUser env w userID 0 = ((ac, lerr), w1) \<and> lerr \<noteq> Nil"
  then show "\<exists>k c. nextEvent env w userID opts
                 = (([], GenerateError, Error userID ''Service.nextEvent'' k c), w1)"
    using nextEvent_list_failed[of env w userID ac lerr w1 opts] by blast
next
  assume "DestStore_ListForUser env w userID 0 = ((lastDest # rest, Nil), w1)
        \<and> EventStore_GetByID env w1 (Dest_EventID lastDest) = ((lastEvent, gerr), w2)
        \<and> gerr \<noteq> Nil"
  then show "\<exists>k c. nextEvent env w userID opts
                 = (([], GenerateError, Error userID ''Service.nextEvent'' k c), w2)"
    using nextEvent_last_failed[of env w userID lastDest rest w1 lastEvent gerr w2 opts] by blast
next
  assume "i < 32
        \<and> EventStore_Search env w
             \<lparr>Bounds = bounds, Start = now + 10 * Minute + int i * timeWindow,
              End = now + 10 * Minute + int i * timeWindow + timeWindow, IncludeBad = False\<rparr>
             = ((events, serr), w1)
        \<and> serr \<noteq> Nil \<and> \<not> Is NotExist serr"
  then show "\<exists>k c. searchLoop env userID now bounds ac (now + 10 * Minute + int i * timeWindow) w
                 = (([], GenerateError, Error userID ''Service.nextEvent'' k c), w1)"
    using searchLoop_search_failed[of i env w bounds now events serr w1 userID ac] by blast
next
  assume "i < 32
        \<and> EventStore_Search env w
             \<lparr>Bounds = bounds, Start = now + 10 * Minute + int i * timeWindow,
              End = now + 10 * Minute + int i * timeWindow + timeWindow, IncludeBad = False\<rparr>
             = ((events, serr), w1)
        \<and> Is NotExist serr"
  then show "searchLoop env userID now bounds ac (now + 10 * Minute + int i * timeWindow) w
         = (([], GenerateNoResults, Nil), w1)"
    using searchLoop_search_not_exist[of i env w bounds now events serr w1 userID ac] by blast
next
  assume "nextEvent env w userID opts = ((chosen, result, err), w')"
  then show "result = GenerateError \<longleftrightarrow> err \<noteq> Nil"
    using nextEvent_error_iff by blast
next
  assume a: "authorised env opts userID
        \<and> nextEvent env w userID opts = ((chosen, result, err), w') \<and> err \<noteq> Nil"
  then show "\<exists>reply c. DestGenerate env w opts
                     = (Return (reply, Error [] ''Service.DestGenerate'' Internal c), w')"
    using DestGenerate_nextEvent_failed[of env opts userID w chosen result err w'] by blast
  from a show "reads_only w w'"
    using DestGenerate_nextEvent_failed[of env opts userID w chosen result err w'] by blast
qed


theorem candidate_search_failure_witness:
  "DestStore_ListForUser brokenStoreEnv emptyWorld ''u'' 0
     = (([], Leaf (LibraryError ''connection refused'')), called (Call_ListForUser ''u'' 0) emptyWorld)
   \<and> Leaf (LibraryError ''connection refused'') \<noteq> Nil
   \<and> \<not> Is NotExist (Leaf (LibraryError ''connection refused''))
   \<and> authorised brokenStoreEnv noRequest ''u''
   \<and> fst (nextEvent brokenStoreEnv emptyWorld ''u'' noRequest)
       = ([], GenerateError,
          Error ''u'' ''Service.nextEvent'' Other (Leaf (ErrorString ''list dests'')))
   \<and> fst (DestGenerate brokenStoreEnv emptyWorld noRequest)
       = Return (\<lparr>Result = GenerateOK, Dests = [], Events = []\<rparr>,
           Error [] ''Service.DestGenerate'' Internal
             (Error ''u'' ''Service.nextEvent'' Other (Leaf (ErrorString ''list dests''))))
   \<and> EventStore_Search brokenStoreEnv emptyWorld
         \<lparr>Bounds = [], Start = 0 + 10 * Minute + int 0 * timeWindow,
          End = 0 + 10 * Minute + int 0 * timeWindow + timeWindow, IncludeBad = False\<rparr>
       = (([], Leaf (LibraryError ''connection refused'')),
          called (Call_Search \<lparr>Bounds = [], Start = 0 + 10 * Minute + int 0 * timeWindow,
             End = 0 + 10 * Minute + int 0 * timeWindow + timeWindow, IncludeBad = False\<rparr>) emptyWorld)
   \<and> fst (snd (fst (searchLoop brokenStoreEnv ''u'' 0 [] []
                        (0 + 10 * Minute + int 0 * timeWindow) emptyWorld))) = GenerateError"
proof -
  let ?err = "Leaf (LibraryError ''connection refused'')"
  let ?w1 = "called (Call_ListForUser ''u'' 0) emptyWorld"
  let ?req = "\<lparr>Bounds = [], Start = 0 + 10 * Minute + int 0 * timeWindow,
          End = 0 + 10 * Minute + int 0 * timeWindow + timeWindow, IncludeBad = False\<rparr>"
  let ?nerr = "Error ''u'' ''Service.nextEvent'' Other (Leaf (ErrorString ''list dests''))"
  have l: "DestStore_ListForUser brokenStoreEnv emptyWorld ''u'' 0 = (([], ?err), ?w1)"
    by (simp add: DestStore_ListForUser_def brokenStoreEnv_def quietEnv_def Let_def)
  have a: "authorised brokenStoreEnv noRequest ''u''"
    by (simp add: authorised_def brokenStoreEnv_def quietEnv_def userU_def noRequest_def)
  have n: "nextEvent brokenStoreEnv emptyWorld ''u'' noRequest = (([], GenerateError, ?nerr), ?w1)"
    unfolding nextEvent_def Let_def l prod.case by (simp add: E_val_def)
  have d: "fst (DestGenerate brokenStoreEnv emptyWorld noRequest)
       = Return (\<lparr>Result = GenerateOK, Dests = [], Events = []\<rparr>,
           Error [] ''Service.DestGenerate'' Internal ?nerr)"
    by (simp add: DestGenerate_def nextEvent_def DestStore_ListForUser_def Let_def E_val_def
        brokenStoreEnv_def quietEnv_def userU_def noRequest_def called_def emptyWorld_def)
  have s: "EventStore_Search brokenStoreEnv emptyWorld ?req = (([], ?err), called (Call_Search ?req) emptyWorld)"
    by (simp add: EventStore_Search_def brokenStoreEnv_def quietEnv_def Let_def)
  have "\<exists>k c. searchLoop brokenStoreEnv ''u'' 0 [] [] (0 + 10 * Minute + int 0 * timeWindow) emptyWorld
                 = (([], GenerateError, Error ''u'' ''Service.nextEvent'' k c),
                    called (Call_Search ?req) emptyWorld)"
    using candidate_search_failure [where env = brokenStoreEnv and w = emptyWorld
        and userID = "''u''" and i = 0 and bounds = "[]" and now = 0 and events = "[]"
        and serr = ?err and ?w1.0 = "called (Call_Search ?req) emptyWorld" and ac = "[]"] s
    by simp
  then have g: "fst (snd (fst (searchLoop brokenStoreEnv ''u'' 0 [] []
                        (0 + 10 * Minute + int 0 * timeWindow) emptyWorld))) = GenerateError"
    by auto
  from l a n d s g show ?thesis by simp
qed

text \<open>
  The claim as written has every failure of a store give result \<open>ERROR\<close>. A search
  that fails with a \<open>NotExist\<close> error gives \<open>NO_RESULTS\<close> and no error at all.
\<close>

theorem NotExist_search_failure_counterexample:
  "snd (events_Search notExistSearchEnv
          (called (Call_Search \<lparr>Bounds = [], Start = 10 * Minute, End = 10 * Minute + timeWindow,
                                IncludeBad = False\<rparr>) (called (Call_ListForUser ''u'' 0) emptyWorld))
          \<lparr>Bounds = [], Start = 10 * Minute, End = 10 * Minute + timeWindow, IncludeBad = False\<rparr>)
     = Error [] [] NotExist Nil
   \<and> nextEvent notExistSearchEnv emptyWorld ''u'' noRequest
     = (([], GenerateNoResults, Nil),
        emptyWorld\<lparr>calls := [Call_ListForUser ''u'' 0,
           Call_Search \<lparr>Bounds = [], Start = 10 * Minute, End = 10 * Minute + timeWindow,
                        IncludeBad = False\<rparr>]\<rparr>)"
  apply (simp add: nextEvent_def DestStore_ListForUser_def Let_def emptyWorld_def called_def newestFirst_def)
  apply (simp add: notExistSearchEnv_def quietEnv_def userU_def noRequest_def E_val_def)
  apply (subst searchLoop.simps)
  apply (simp add: EventStore_Search_def called_def E_val_def Let_def Minute_def Hour_def Second_def)
  done


theorem search_window_loop_bounded_witness:
  "events_Search (quietEnv userU) emptyWorld
      \<lparr>Bounds = [], Start = 0 + 10 * Minute + int 0 * timeWindow,
       End = 0 + 10 * Minute + int 0 * timeWindow + timeWindow, IncludeBad = False\<rparr> = ([], Nil)
   \<and> fst (searchLoop (quietEnv userU) ''u'' 0 [] [] (0 + 10 * Minute) emptyWorld)
       = ([], GenerateNoResults, Nil)"
  using search_window_loop_bounded [of "quietEnv userU" "''u''" 0 "[]" "[]" emptyWorld]
  by (simp add: quietEnv_def)


subsection \<open>What DestGenerate writes\<close>
lemma DestGenerate_wait:
  assumes "authorised env opts userID"
    and "DestStore_ListForUser env w userID 0 = ((lastDest # rest, Nil), w1)"
    and "EventStore_GetByID env w1 (Dest_EventID lastDest) = ((lastEvent, Nil), w2)"
    and "Time_Now env w < Event_StartTime lastEvent"
  shows "nextEvent env w userID opts = (([], GenerateWait, Nil), w2)
     \<and> DestGenerate env w opts
         = listReply env w2 \<lparr>Result = GenerateWait, Dests = [], Events = []\<rparr> userID"
proof -
  have n: "nextEvent env w userID opts = (([], GenerateWait, Nil), w2)"
    by (rule nextEvent_wait[OF assms(2,3,4)])
  have "DestGenerate env w opts
         = listReply env w2 \<lparr>Result = GenerateWait, Dests = [], Events = []\<rparr> userID"
  proof (cases rule: DestGenerate_cases[of env opts w])
    case denied
    with assms(1) show ?thesis by simp
  next
    case (failed userID' chosen' result' err' w1 c)
    with n authorised_unique[OF assms(1) failed(1)] show ?thesis by auto
  next
    case (no_dest userID' chosen' result' w1)
    with n authorised_unique[OF assms(1) no_dest(1)] show ?thesis by auto
  next
    case (create_failed userID' chosen' w1 d cerr w2)
    with n authorised_unique[OF assms(1) create_failed(1)] show ?thesis by auto
  next
    case (created userID' chosen' w1 d w2)
    with n authorised_unique[OF assms(1) created(1)] show ?thesis by auto
  qed
  with n show ?thesis by simp
qed

lemma reads_only_dests: "reads_only w w' \<Longrightarrow> dests w' = dests w \<and> users w' = users w"
  by (simp add: reads_only_def)

lemma DestGenerate_rows:
  "users (snd (DestGenerate env w opts)) = users w
   \<and> (dests (snd (DestGenerate env w opts)) = dests w
       \<or> (\<exists>row. dests (snd (DestGenerate env w opts)) = dests w @ [row]))
   \<and> (dests (snd (DestGenerate env w opts)) \<noteq> dests w \<longrightarrow>
        (\<exists>user chosen w1. authorised env opts user
            \<and> nextEvent env w user opts = ((chosen, GenerateOK, Nil), w1)))"
proof (cases rule: DestGenerate_cases[of env opts w])
  case denied
  then show ?thesis by simp
next
  case (failed userID chosen result err w1 c)
  from nextEvent_reads_only[of w env userID opts] failed(2) have "reads_only w w1" by simp
  with failed(4) show ?thesis by (simp add: reads_only_def)
next
  case (no_dest userID chosen result w1)
  from nextEvent_reads_only[of w env userID opts] no_dest(2) have "reads_only w w1" by simp
  with listReply_props[of w1 env "\<lparr>Result = result, Dests = [], Events = []\<rparr>" userID]
  have "reads_only w (snd (DestGenerate env w opts))"
    using no_dest(4) by (auto intro: reads_only_trans)
  then show ?thesis by (simp add: reads_only_def)
next
  case (create_failed userID chosen w1 d err w2)
  from nextEvent_reads_only[of w env userID opts] create_failed(2) have r: "reads_only w w1" by simp
  from Create_frame[OF create_failed(3)] reads_only_dests[OF r] create_failed(1,2,5)
  show ?thesis by auto
next
  case (created userID chosen w1 d w2)
  from nextEvent_reads_only[of w env userID opts] created(2) have r: "reads_only w w1" by simp
  from listReply_props[of w2 env "\<lparr>Result = GenerateOK, Dests = [], Events = []\<rparr>" userID]
  have "reads_only w2 (snd (DestGenerate env w opts))"
    using created(4) by simp
  from reads_only_dests[OF this] Create_frame[OF created(3)] reads_only_dests[OF r] created(1,2)
  show ?thesis by auto
qed

text \<open>
  Claim C2. For an authorised caller whose history is not empty and whose most recent
  destination's event starts after now: \<^verbatim>\<open>nextEvent\<close> returns \<open>GenerateWait\<close> with
  no error; \<^verbatim>\<open>DestGenerate\<close> writes nothing (the tables and the serial counter are
  as before, and every call it made is a query); the reply it returns has result
  \<open>GenerateWait\<close>; and it fails to return only by the panic of the last loop, when
  the listing found no event for one of the listed destinations. For every call:
  the user table is untouched, at most one row is added to the destinations, and a
  row is added only when \<^verbatim>\<open>nextEvent\<close> returned \<open>GenerateOK\<close> without error, so none
  on \<open>GenerateWait\<close>, \<open>GenerateNoResults\<close> or \<open>GenerateError\<close>.
\<close>

theorem wait_creates_no_destination:
  "(authorised env opts userID
      \<and> DestStore_ListForUser env w userID 0 = ((lastDest # rest, Nil), w1)
      \<and> EventStore_GetByID env w1 (Dest_EventID lastDest) = ((lastEvent, Nil), w2)
      \<and> Time_Now env w < Event_StartTime lastEvent \<longrightarrow>
        nextEvent env w userID opts = (([], GenerateWait, Nil), w2)
      \<and> reads_only w (snd (DestGenerate env w opts))
      \<and> (\<forall>reply err. fst (DestGenerate env w opts) = Return (reply, err)
             \<longrightarrow> Result reply = GenerateWait)
      \<and> (fst (DestGenerate env w opts) = Panic
             \<longrightarrow> (\<exists>ds w3. DestList env w2 0 = ((ds, Nil), w3) \<and> sideloaded ds = None)))
   \<and> users (snd (DestGenerate env w opts)) = users w
   \<and> (dests (snd (DestGenerate env w opts)) = dests w
       \<or> (\<exists>row. dests (snd (DestGenerate env w opts)) = dests w @ [row]))
   \<and> (dests (snd (DestGenerate env w opts)) \<noteq> dests w \<longrightarrow>
        (\<exists>user chosen w'. authorised env opts user
            \<and> nextEvent env w user opts = ((chosen, GenerateOK, Nil), w')))"
proof (rule conjI)
  show "authorised env opts userID
      \<and> DestStore_ListForUser env w userID 0 = ((lastDest # rest, Nil), w1)
      \<and> EventStore_GetByID env w1 (Dest_EventID lastDest) = ((lastEvent, Nil), w2)
      \<and> Time_Now env w < Event_StartTime lastEvent \<longrightarrow>
        nextEvent env w userID opts = (([], GenerateWait, Nil), w2)
      \<and> reads_only w (snd (DestGenerate env w opts))
      \<and> (\<forall>reply err. fst (DestGenerate env w opts) = Return (reply, err)
             \<longrightarrow> Result reply = GenerateWait)
      \<and> (fst (DestGenerate env w opts) = Panic
             \<longrightarrow> (\<exists>ds w3. DestList env w2 0 = ((ds, Nil), w3) \<and> sideloaded ds = None))"
  proof
    assume a: "authorised env opts userID
      \<and> DestStore_ListForUser env w userID 0 = ((lastDest # rest, Nil), w1)
      \<and> EventStore_GetByID env w1 (Dest_EventID lastDest) = ((lastEvent, Nil), w2)
      \<and> Time_Now env w < Event_StartTime lastEvent"
    then have n: "nextEvent env w userID opts = (([], GenerateWait, Nil), w2)"
      and d: "DestGenerate env w opts
         = listReply env w2 \<lparr>Result = GenerateWait, Dests = [], Events = []\<rparr> userID"
      using DestGenerate_wait[of env opts userID w lastDest rest w1 lastEvent w2] by blast+
    from nextEvent_reads_only[of w env userID opts] n have r: "reads_only w w2" by simp
    from listReply_props[of w2 env "\<lparr>Result = GenerateWait, Dests = [], Events = []\<rparr>" userID]
    have p: "reads_only w2 (snd (DestGenerate env w opts))"
      "\<forall>reply err. fst (DestGenerate env w opts) = Return (reply, err) \<longrightarrow> Result reply = GenerateWait"
      "fst (DestGenerate env w opts) = Panic
         \<longrightarrow> (\<exists>ds w3. DestList env w2 0 = ((ds, Nil), w3) \<and> sideloaded ds = None)"
      unfolding d by simp_all
    from n reads_only_trans[OF r p(1)] p(2,3)
    show "nextEvent env w userID opts = (([], GenerateWait, Nil), w2)
      \<and> reads_only w (snd (DestGenerate env w opts))
      \<and> (\<forall>reply err. fst (DestGenerate env w opts) = Return (reply, err)
             \<longrightarrow> Result reply = GenerateWait)
      \<and> (fst (DestGenerate env w opts) = Panic
             \<longrightarrow> (\<exists>ds w3. DestList env w2 0 = ((ds, Nil), w3) \<and> sideloaded ds = None))"
      by blast
  qed
next
  from DestGenerate_rows[of env w opts]
  show "users (snd (DestGenerate env w opts)) = users w
   \<and> (dests (snd (DestGenerate env w opts)) = dests w
       \<or> (\<exists>row. dests (snd (DestGenerate env w opts)) = dests w @ [row]))
   \<and> (dests (snd (DestGenerate env w opts)) \<noteq> dests w \<longrightarrow>
        (\<exists>user chosen w'. authorised env opts user
            \<and> nextEvent env w user opts = ((chosen, GenerateOK, Nil), w')))"
    by blast
qed

theorem wait_creates_no_destination_witness:
  "authorised waitingEnv noRequest ''u''
   \<and> DestStore_ListForUser waitingEnv oneDestWorld ''u'' 0
       = (([zeroDest\<lparr>Dest_ID := ''1'', Dest_UserID := ''u'', Dest_EventID := ''e1''\<rparr>], Nil),
          called (Call_ListForUser ''u'' 0) oneDestWorld)
   \<and> EventStore_GetByID waitingEnv (called (Call_ListForUser ''u'' 0) oneDestWorld) ''e1''
       = ((upcomingEvent, Nil), called (Call_GetByID ''e1'') (called (Call_ListForUser ''u'' 0) oneDestWorld))
   \<and> Time_Now waitingEnv oneDestWorld < Event_StartTime upcomingEvent
   \<and> nextEvent waitingEnv oneDestWorld ''u'' noRequest
       = (([], GenerateWait, Nil), called (Call_GetByID ''e1'') (called (Call_ListForUser ''u'' 0) oneDestWorld))
   \<and> DestGenerate waitingEnv oneDestWorld noRequest
       = (Return (\<lparr>Result = GenerateWait,
            Dests = [zeroDest\<lparr>Dest_ID := ''1'', Dest_UserID := ''u'', Dest_EventID := ''e1''\<rparr>],
            Events = [upcomingEvent]\<rparr>, Nil),
          oneDestWorld\<lparr>calls := [Call_ListForUser ''u'' 0, Call_GetByID ''e1'',
                                   Call_ListForUser ''u'' 0, Call_GetMulti [''e1'']]\<rparr>)
   \<and> dests (snd (DestGenerate waitingEnv oneDestWorld noRequest)) = dests oneDestWorld"
proof -
  let ?d = "zeroDest\<lparr>Dest_ID := ''1'', Dest_UserID := ''u'', Dest_EventID := ''e1''\<rparr>"
  let ?w1 = "called (Call_ListForUser ''u'' 0) oneDestWorld"
  let ?w2 = "called (Call_GetByID ''e1'') ?w1"
  have a: "authorised waitingEnv noRequest ''u''"
    by (simp add: authorised_def waitingEnv_def quietEnv_def userU_def noRequest_def)
  have l: "DestStore_ListForUser waitingEnv oneDestWorld ''u'' 0 = ((?d # [], Nil), ?w1)"
    by (simp add: DestStore_ListForUser_def waitingEnv_def quietEnv_def Let_def oneDestWorld_def
        emptyWorld_def called_def newestFirst_def zeroDest_def)
  have g: "EventStore_GetByID waitingEnv ?w1 (Dest_EventID ?d) = ((upcomingEvent, Nil), ?w2)"
    by (simp add: EventStore_GetByID_def waitingEnv_def quietEnv_def Let_def zeroDest_def)
  have t: "Time_Now waitingEnv oneDestWorld < Event_StartTime upcomingEvent"
    by (simp add: waitingEnv_def quietEnv_def upcomingEvent_def zeroEvent_def Hour_def Minute_def Second_def)
  have run: "DestGenerate waitingEnv oneDestWorld noRequest
       = (Return (\<lparr>Result = GenerateWait, Dests = [?d], Events = [upcomingEvent]\<rparr>, Nil),
          oneDestWorld\<lparr>calls := [Call_ListForUser ''u'' 0, Call_GetByID ''e1'',
                                   Call_ListForUser ''u'' 0, Call_GetMulti [''e1'']]\<rparr>)"
    by (simp add: DestGenerate_def nextEvent_def listReply_def DestList_def DestStore_ListForUser_def
      EventStore_GetByID_def EventStore_GetMulti_def Let_def
      waitingEnv_def quietEnv_def userU_def noRequest_def oneDestWorld_def emptyWorld_def called_def
      newestFirst_def zeroDest_def upcomingEvent_def zeroEvent_def Hour_def Minute_def Second_def)
  from wait_creates_no_destination [of waitingEnv noRequest "''u''" oneDestWorld ?d "[]" ?w1
      upcomingEvent ?w2] a l g t
  have "nextEvent waitingEnv oneDestWorld ''u'' noRequest = (([], GenerateWait, Nil), ?w2)"
    "reads_only oneDestWorld (snd (DestGenerate waitingEnv oneDestWorld noRequest))"
    by simp_all
  with a l g t run show ?thesis by (simp add: reads_only_def zeroDest_def)
qed


subsection \<open>The filter before the random pick\<close>

text \<open>
  What the filter of \<^verbatim>\<open>nextEvent\<close> does guarantee of a chosen event: it came out
  of a search, it ends no earlier than \<open>now + 30 minutes\<close>, and it is not the event
  of any destination on the page of history that was fetched.
\<close>

lemma nextEvent_OK_chosen:
  assumes "nextEvent env w userID opts = ((chosen, GenerateOK, err), w')"
  shows "err = Nil
     \<and> (\<exists>ac w1 i events event.
           DestStore_ListForUser env w userID 0 = ((ac, Nil), w1)
         \<and> i < 32
         \<and> events_Search env w'
              \<lparr>Bounds = CircleGeom env (Req_Lat opts) (Req_Lng opts) 8000,
               Start = Time_Now env w + 10 * Minute + int i * timeWindow,
               End = Time_Now env w + 10 * Minute + int i * timeWindow + timeWindow,
               IncludeBad = False\<rparr> = (events, Nil)
         \<and> event \<in> set events \<and> Event_ID event = chosen
         \<and> Time_Now env w + 30 * Minute \<le> Event_EndTime event
         \<and> (\<forall>d \<in> set ac. Dest_EventID d \<noteq> chosen))"
proof (cases rule: nextEvent_cases[of env w userID opts])
  case (list_failed ac lerr w1)
  with assms show ?thesis by simp
next
  case (last_failed lastDest rest w1 lastEvent gerr w2)
  with assms show ?thesis by simp
next
  case (wait lastDest rest w1 lastEvent w2)
  with assms show ?thesis by simp
next
  case (search ac w1 w2)
  with assms have s: "searchLoop env userID (Time_Now env w)
      (CircleGeom env (Req_Lat opts) (Req_Lng opts) 8000) ac
      (Time_Now env w + 10 * Minute + int 0 * timeWindow) w2 = ((chosen, GenerateOK, err), w')"
    by simp
  from s show ?thesis
  proof (cases rule: searchLoop_result)
    case none
    then show ?thesis by simp
  next
    case (failed i events serr)
    then show ?thesis by simp
  next
    case (found i events event)
    from found(6) have "Time_Now env w + 30 * Minute \<le> Event_EndTime event"
      "\<forall>d \<in> set ac. Dest_EventID d \<noteq> Event_ID event"
      by (auto simp: badEvent_iff)
    with found search(1) show ?thesis by blast
  qed
qed

text \<open>
  Claim C1 fails on the code, in two ways. \<^verbatim>\<open>ListForUser\<close> returns one page of
  ten destinations (its comment says all of them), so an event chosen eleven
  destinations ago is not filtered out "so we don't repeat": user \<open>u\<close> has chosen
  \<open>e1\<close> to \<open>e11\<close>, the search finds \<open>e1\<close>, and \<open>e1\<close> is chosen again. And
  \<^verbatim>\<open>arriveTime.After(event.EndTime)\<close> is false for an event that ends at the
  moment of arrival, so the event \<open>e9\<close> that ends exactly at \<open>now + 30 minutes\<close>
  is chosen.
\<close>

theorem nextEvent_chooses_excluded_events:
  "fst (nextEvent longEventEnv elevenDestsWorld ''u'' noRequest) = (''e1'', GenerateOK, Nil)
   \<and> ''e1'' \<in> set (map Dest_EventID (filter (\<lambda>d. Dest_UserID d = ''u'') (dests elevenDestsWorld)))
   \<and> fst (nextEvent endingEventEnv emptyWorld ''u'' noRequest) = (''e9'', GenerateOK, Nil)
   \<and> events_Search endingEventEnv emptyWorld
        \<lparr>Bounds = [], Start = 10 * Minute, End = 10 * Minute + timeWindow, IncludeBad = False\<rparr>
       = ([endingEvent], Nil)
   \<and> Event_ID endingEvent = ''e9''
   \<and> Event_EndTime endingEvent = Time_Now endingEventEnv emptyWorld + 30 * Minute"
proof -
  have a: "fst (nextEvent longEventEnv elevenDestsWorld ''u'' noRequest) = (''e1'', GenerateOK, Nil)"
    apply (simp add: nextEvent_def DestStore_ListForUser_def Let_def elevenDestsWorld_def
        emptyWorld_def called_def newestFirst_def zeroDest_def)
    apply (simp add: longEventEnv_def quietEnv_def userU_def noRequest_def EventStore_GetByID_def
        called_def longEvent_def zeroEvent_def Hour_def Minute_def Second_def)
    apply (subst searchLoop.simps)
    apply (simp add: EventStore_Search_def called_def Let_def Minute_def Hour_def Second_def
        badEvent_def longEvent_def zeroEvent_def)
    done
  have b: "''e1'' \<in> set (map Dest_EventID (filter (\<lambda>d. Dest_UserID d = ''u'') (dests elevenDestsWorld)))"
    by (simp add: elevenDestsWorld_def emptyWorld_def zeroDest_def)
  have c: "fst (nextEvent endingEventEnv emptyWorld ''u'' noRequest) = (''e9'', GenerateOK, Nil)"
    apply (simp add: nextEvent_def DestStore_ListForUser_def Let_def emptyWorld_def called_def
        newestFirst_def)
    apply (simp add: endingEventEnv_def quietEnv_def userU_def noRequest_def)
    apply (subst searchLoop.simps)
    apply (simp add: EventStore_Search_def called_def Let_def Minute_def Hour_def Second_def
        badEvent_def endingEvent_def zeroEvent_def)
    done
  have d: "events_Search endingEventEnv emptyWorld
        \<lparr>Bounds = [], Start = 10 * Minute, End = 10 * Minute + timeWindow, IncludeBad = False\<rparr>
       = ([endingEvent], Nil)"
    "Event_ID endingEvent = ''e9''"
    "Event_EndTime endingEvent = Time_Now endingEventEnv emptyWorld + 30 * Minute"
    by (simp_all add: endingEventEnv_def quietEnv_def endingEvent_def)
  from a b c d show ?thesis by simp
qed


section \<open>Properties of the classifier\<close>

lemma anyFilter_iff: "anyFilter filts s \<longleftrightarrow> (\<exists>filt \<in> set filts. MatchString filt s)"
  by (induction filts) auto

lemma MatchString_iff: "MatchString r s \<longleftrightarrow> (\<exists>i \<le> length s. ends r s i \<noteq> [])"
proof -
  have "(\<exists>i \<in> {0..<Suc (length s)}. ends r s i \<noteq> []) \<longleftrightarrow> (\<exists>i \<le> length s. ends r s i \<noteq> [])"
    by (metis atLeastLessThan_iff less_Suc_eq_le zero_le)
  then show ?thesis by (simp add: MatchString_def list_ex_iff del: upt_Suc)
qed

lemma currency_filter:
  "descFilters ! 0 =
     Alt (Lit 36) (Alt (Lit 165) (Alt (Lit 8377) (Alt (Lit 8353) (Alt (Lit 8369) (Alt (Lit 163)
       (Alt (Lit 8364) (Alt (Lit 8361) (Alt (Lit 8360) (Alt (Lit 65020) (Alt (Lit 8369) (Lit 8381)))))))))))"
  by (simp add: descFilters_def currencyRunes_def)

lemma currency_ends:
  assumes "i < length s" and "s ! i \<in> set currencyRunes"
  shows "ends (descFilters ! 0) s i \<noteq> []"
  using assms unfolding currency_filter by (auto simp: currencyRunes_def)

lemma currency_matches:
  assumes "c \<in> set currencyRunes" and "c \<in> set s"
  shows "MatchString (descFilters ! 0) s"
proof -
  from assms(2) obtain i where i: "i < length s" "s ! i = c" by (auto simp: in_set_conv_nth)
  with assms(1) currency_ends[of i s] have "ends (descFilters ! 0) s i \<noteq> []" by simp
  with i(1) show ?thesis unfolding MatchString_iff by (intro exI[of _ i]) simp
qed

lemma descFilters_0: "descFilters ! 0 \<in> set descFilters"
  by (simp add: descFilters_def)

text \<open>
  Claim C9, as amended. \<open>IsBadEvent\<close> is a function of the name and the description
  alone: two events that agree on both get the same answer. It is true exactly when
  some name filter matches the name or some description filter matches the
  description. And every event whose description contains one of the currency
  symbols the first description filter lists (U+0024, U+00A5, U+20B9, U+20A1,
  U+20B1, U+00A3, U+20AC, U+20A9, U+20A8, U+FDFC, U+20BD) is bad.
\<close>

theorem IsBadEvent_classifies:
  "(Event_Name e = Event_Name e' \<and> Event_Description e = Event_Description e'
       \<longrightarrow> IsBadEvent e = IsBadEvent e')
   \<and> (IsBadEvent e \<longleftrightarrow>
        (\<exists>filt \<in> set nameFilters. MatchString filt (Event_Name e))
        \<or> (\<exists>filt \<in> set descFilters. MatchString filt (Event_Description e)))
   \<and> (c \<in> set currencyRunes \<and> c \<in> set (Event_Description e) \<longrightarrow> IsBadEvent e)"
proof (intro conjI impI)
  assume "Event_Name e = Event_Name e' \<and> Event_Description e = Event_Description e'"
  then show "IsBadEvent e = IsBadEvent e'" by (simp add: IsBadEvent_def)
next
  show "IsBadEvent e \<longleftrightarrow>
        (\<exists>filt \<in> set nameFilters. MatchString filt (Event_Name e))
        \<or> (\<exists>filt \<in> set descFilters. MatchString filt (Event_Description e))"
    by (simp add: IsBadEvent_def anyFilter_iff)
next
  assume "c \<in> set currencyRunes \<and> c \<in> set (Event_Description e)"
  then have "MatchString (descFilters ! 0) (Event_Description e)"
    using currency_matches by blast
  with descFilters_0 show "IsBadEvent e"
    unfolding IsBadEvent_def anyFilter_iff by auto
qed

theorem IsBadEvent_classifies_witness:
  "Event_Name dollarEvent = Event_Name (dollarEvent\<lparr>Event_ID := ''7''\<rparr>)
   \<and> Event_Description dollarEvent = Event_Description (dollarEvent\<lparr>Event_ID := ''7''\<rparr>)
   \<and> IsBadEvent dollarEvent = IsBadEvent (dollarEvent\<lparr>Event_ID := ''7''\<rparr>)
   \<and> (36::nat) \<in> set currencyRunes \<and> 36 \<in> set (Event_Description dollarEvent)
   \<and> IsBadEvent dollarEvent"
proof -
  have 1: "(36::nat) \<in> set currencyRunes" by (simp add: currencyRunes_def)
  have 2: "36 \<in> set (Event_Description dollarEvent)" by (simp add: dollarEvent_def runes_def)
  note t = IsBadEvent_classifies [of dollarEvent "dollarEvent\<lparr>Event_ID := ''7''\<rparr>" 36]
  from t 1 2 have a: "IsBadEvent dollarEvent" by blast
  from t have b: "IsBadEvent dollarEvent = IsBadEvent (dollarEvent\<lparr>Event_ID := ''7''\<rparr>)" by simp
  from 1 2 a b show ?thesis by simp
qed


text \<open>
  The claim as written speaks of every currency symbol. The filter is a fixed list:
  a description with the lira sign U+20BA, and nothing else a filter matches, is not
  bad.
\<close>

theorem lira_sign_not_listed_counterexample:
  "8378 \<in> set (Event_Description liraEvent) \<and> 8378 \<notin> set currencyRunes
   \<and> \<not> IsBadEvent liraEvent"
  by (simp add: IsBadEvent_def liraEvent_def zeroEvent_def nameFilters_def descFilters_def
      wordFold_def litsFold_def lits_def runes_def MatchString_def currencyRunes_def
      foldOrbit_def isWordRune_def isDigitRune_def wordAt_def)


end
